theory Spec2Isabelle
  imports Main "HOL-Library.Char_ord" "HOL-Library.List_Lexorder" "HOL-Library.Product_Lexorder"
    "HOL-Library.Multiset"
begin

section \<open>JavaScript values of an uploaded row\<close>

text \<open>
  A raw row is a mapping from keys to strings (the repository's interface description:
  a sequence of key-to-string mappings). Reading a key that the row does not have gives
  \<open>undefined\<close>, which is \<open>None\<close> here. The operator \<open>a || b\<close> of the source returns
  \<open>a\<close> when \<open>a\<close> is truthy and \<open>b\<close> otherwise; a string is truthy when it is not
  empty and \<open>undefined\<close> is falsy.
\<close>

type_synonym jsval = "string option"

type_synonym raw_row = "string \<Rightarrow> jsval"

definition truthy :: "jsval \<Rightarrow> bool" where
  "truthy v = (case v of None \<Rightarrow> False | Some s \<Rightarrow> s \<noteq> [])"

definition or_js :: "jsval \<Rightarrow> jsval \<Rightarrow> jsval" where
  "or_js a b = (if truthy a then a else b)"

text \<open>\<open>a || 'lit'\<close>: the chain ends in a string literal, so the result is a string.\<close>

definition or_lit :: "jsval \<Rightarrow> string \<Rightarrow> string" where
  "or_lit a d = (case a of None \<Rightarrow> d | Some s \<Rightarrow> if s \<noteq> [] then s else d)"

section \<open>The data of \<open>TimetableManager.tsx\<close>\<close>

text \<open>
  The interface \<open>TimetableEntry\<close>. TypeScript's types are erased: \<open>type\<close> is whatever
  string the row carries (the cast \<open>as 'Theory' | 'Lab'\<close> checks nothing), and the
  optional fields may be \<open>undefined\<close>. The field \<open>semester\<close> is copied from the row as
  it is.
\<close>

record TimetableEntry =
  id' :: string
  course :: string
  section' :: string
  day :: string
  time :: string
  type :: string
  room :: string
  instructor :: jsval
  course_code :: jsval
  course_name :: jsval
  semester :: jsval

record TimetableStats =
  totalClasses :: nat
  uniqueCourses :: nat
  theoryClasses :: nat
  labClasses :: nat
  uniqueRooms :: nat
  daysCovered :: nat

section \<open>Template literals: the decimal text of an index\<close>

text \<open>The digit of a number below ten (of its last decimal place, for any number).\<close>

definition digit_char :: "nat \<Rightarrow> char" where
  "digit_char d = ''0123456789'' ! (d mod 10)"

fun show_nat :: "nat \<Rightarrow> string" where
  "show_nat n = (if n < 10 then [digit_char n] else show_nat (n div 10) @ [digit_char (n mod 10)])"

declare show_nat.simps [simp del]

section \<open>Converting the rows of a response (\<open>loadTimetableData\<close>)\<close>

text \<open>
  The object literal pushed for each row. \<open>prefix\<close> is \<open>entry\<close> for a response that is
  an array, and the file name for a response keyed by file. No \<open>instructor\<close> property
  is written, so that field is \<open>undefined\<close>.
\<close>

definition toEntry :: "string \<Rightarrow> nat \<Rightarrow> raw_row \<Rightarrow> TimetableEntry" where
  "toEntry prefix index entry =
     \<lparr> id' = prefix @ ''_'' @ show_nat index,
       course = or_lit (or_js (or_js (entry ''Course'') (entry ''course'')) (entry ''course_name'')) '''',
       section' = or_lit (or_js (entry ''Section'') (entry ''section'')) '''',
       day = or_lit (or_js (entry ''Day'') (entry ''day'')) '''',
       time = or_lit (or_js (entry ''Time'') (entry ''time'')) '''',
       type = or_lit (or_js (entry ''Type'') (entry ''type'')) ''Theory'',
       room = or_lit (or_js (or_js (entry ''Class'') (entry ''room'')) (entry ''location'')) '''',
       instructor = None,
       course_code = or_js (or_js (entry ''course_code'') (entry ''Course'')) (entry ''course''),
       course_name = or_js (or_js (entry ''course_name'') (entry ''Course'')) (entry ''course''),
       semester = entry ''semester'' \<rparr>"

text \<open>\<open>rows.forEach((entry, index) => allEntries.push({...}))\<close>\<close>

definition pushRows :: "string \<Rightarrow> raw_row list \<Rightarrow> TimetableEntry list" where
  "pushRows prefix rows = map (\<lambda>(index, entry). toEntry prefix index entry) (enumerate 0 rows)"

text \<open>
  \<open>dataToProcess\<close> is either an array of rows or an object whose entries
  (\<open>Object.entries\<close>, in its enumeration order) pair a file name with that file's data;
  file data that is not an array is passed over.
\<close>

datatype fileData = FileRows "raw_row list" | NotAnArray

datatype dataToProcess = DataArray "raw_row list" | DataObject "(string \<times> fileData) list"

fun fileEntries :: "string \<times> fileData \<Rightarrow> TimetableEntry list" where
  "fileEntries (filename, FileRows rows) = pushRows filename rows"
| "fileEntries (filename, NotAnArray) = []"

fun allEntries :: "dataToProcess \<Rightarrow> TimetableEntry list" where
  "allEntries (DataArray rows) = pushRows ''entry'' rows"
| "allEntries (DataObject files) = concat (map fileEntries files)"

section \<open>Sets and statistics\<close>

text \<open>
  \<open>new Set(values)\<close> adds the values one after the other and keeps the order in which
  they were first added; spreading the set (\<open>[...set]\<close>) lists them in that order, and
  \<open>size\<close> is the length of that list.
\<close>

definition Set_add :: "'a list \<Rightarrow> 'a \<Rightarrow> 'a list" where
  "Set_add s x = (if x \<in> set s then s else s @ [x])"

definition newSet :: "'a list \<Rightarrow> 'a list" where
  "newSet xs = foldl Set_add [] xs"

text \<open>\<open>[...new Set(entries.map(item => item.course))].filter(Boolean)\<close>\<close>

definition uniqueCoursesOf :: "TimetableEntry list \<Rightarrow> string list" where
  "uniqueCoursesOf entries = filter (\<lambda>c. c \<noteq> []) (newSet (map course entries))"

definition newStats :: "TimetableEntry list \<Rightarrow> TimetableStats" where
  "newStats entries =
     \<lparr> totalClasses = length entries,
       uniqueCourses = length (uniqueCoursesOf entries),
       theoryClasses = length (filter (\<lambda>item. type item = ''Theory'') entries),
       labClasses = length (filter (\<lambda>item. type item = ''Lab'') entries),
       uniqueRooms = length (newSet (map room entries)),
       daysCovered = length (newSet (map day entries)) \<rparr>"

section \<open>The state of the component\<close>

record ConflictInfo =
  info_day :: string
  course1 :: string
  section1 :: string
  time1 :: string
  room1 :: string
  course2 :: string
  section2 :: string
  time2 :: string
  room2 :: string
  info_type :: string

record Suggestion =
  suggestion_course :: string
  alternative_section :: string
  alternative_time :: string
  alternative_room :: string

record ScheduleRecommendation =
  conflict_type :: string
  conflicted_courses :: "string list"
  recommendation_day :: string
  suggestions :: "Suggestion list"

record Filters =
  filter_course :: string
  filter_day :: string
  filter_type :: string
  filter_room :: string
  filter_department :: string

text \<open>The \<open>useState\<close> cells of \<open>TimetableManager\<close>; \<open>null\<close> is \<open>None\<close>.\<close>

record TimetableManager =
  activeTab :: string
  timetableData :: "TimetableEntry list"
  filteredData :: "TimetableEntry list"
  stats :: "TimetableStats option"
  loading :: bool
  error :: "string option"
  currentTimetableId :: "string option"
  conflicts :: "ConflictInfo list"
  recommendations :: "ScheduleRecommendation list"
  selectedCourses :: "string list"
  availableCourses :: "string list"
  showConflictModal :: bool
  filters :: Filters

text \<open>
  An awaited request either throws (the \<open>catch\<close> branch reads \<open>err.message\<close>) or
  returns the response body.
\<close>

datatype 'r awaited = Threw jsval | Returned 'r

record TimetableResponse =
  success :: bool
  data :: dataToProcess
  response_error :: jsval

section \<open>Loading a timetable\<close>

text \<open>
  \<open>loadTimetableData\<close> and \<open>loadTestTimetableData\<close> have the same body and differ in
  the fallback error message only, which is the parameter \<open>failed\<close>.
\<close>

definition loadData :: "string \<Rightarrow> TimetableManager \<Rightarrow> TimetableResponse awaited \<Rightarrow> TimetableManager" where
  "loadData failed s r =
     (case r of
        Threw message \<Rightarrow> s\<lparr>error := Some (or_lit message failed)\<rparr>
      | Returned response \<Rightarrow>
          if success response then
            (let entries = allEntries (data response) in
             s\<lparr>timetableData := entries,
               filteredData := entries,
               availableCourses := uniqueCoursesOf entries,
               stats := Some (newStats entries)\<rparr>)
          else s\<lparr>error := Some (or_lit (response_error response) failed)\<rparr>)"

definition loadTimetableData :: "TimetableManager \<Rightarrow> TimetableResponse awaited \<Rightarrow> TimetableManager" where
  "loadTimetableData = loadData ''Failed to load timetable data''"

definition loadTestTimetableData :: "TimetableManager \<Rightarrow> TimetableResponse awaited \<Rightarrow> TimetableManager" where
  "loadTestTimetableData = loadData ''Failed to load test timetable data''"

definition mockData :: "TimetableEntry list" where
  "mockData =
     [ \<lparr> id' = ''1'', course = ''CS2001'', section' = ''A'', day = ''Monday'',
         time = ''09:00-10:30'', type = ''Theory'', room = ''CS-101'', instructor = None,
         course_code = Some ''CS2001'', course_name = Some ''Data Structures'',
         semester = Some ''2'' \<rparr>,
       \<lparr> id' = ''2'', course = ''CS2001'', section' = ''A'', day = ''Wednesday'',
         time = ''09:00-10:30'', type = ''Theory'', room = ''CS-101'', instructor = None,
         course_code = Some ''CS2001'', course_name = Some ''Data Structures'',
         semester = Some ''2'' \<rparr>,
       \<lparr> id' = ''3'', course = ''CS2001'', section' = ''A'', day = ''Friday'',
         time = ''14:00-15:30'', type = ''Lab'', room = ''CS-Lab-1'', instructor = None,
         course_code = Some ''CS2001'', course_name = Some ''Data Structures Lab'',
         semester = Some ''2'' \<rparr> ]"

definition processFileLocally :: "TimetableManager \<Rightarrow> TimetableManager" where
  "processFileLocally s =
     s\<lparr>timetableData := mockData,
       filteredData := mockData,
       availableCourses := uniqueCoursesOf mockData,
       stats := Some (newStats mockData),
       activeTab := ''view'',
       error := Some ''API unavailable - showing sample data. Please try uploading again later.''\<rparr>"

section \<open>The view filters (\<open>applyFilters\<close>)\<close>

text \<open>
  \<open>toLowerCase\<close> is a method of the runtime. It follows the case tables of Unicode,
  which are not part of the repository, so the filter takes it as the parameter
  \<open>toLowerCase\<close>, and what is shown about the filter holds whatever function that is.
  The method \<open>includes\<close>: whether the second string occurs in the first as a
  contiguous piece.
\<close>

fun startsWith :: "string \<Rightarrow> string \<Rightarrow> bool" where
  "startsWith s [] = True"
| "startsWith [] (p # ps) = False"
| "startsWith (c # cs) (p # ps) = (c = p \<and> startsWith cs ps)"

fun includes' :: "string \<Rightarrow> string \<Rightarrow> bool" where
  "includes' [] p = (p = [])"
| "includes' (c # cs) p = (startsWith (c # cs) p \<or> includes' cs p)"

definition applyFilters :: "(string \<Rightarrow> string) \<Rightarrow> TimetableManager \<Rightarrow> TimetableManager" where
  "applyFilters toLowerCase s =
     (let f = filters s;
          filtered0 = timetableData s;
          filtered1 = (if filter_course f \<noteq> []
                       then filter (\<lambda>item. includes' (toLowerCase (course item)) (toLowerCase (filter_course f))) filtered0
                       else filtered0);
          filtered2 = (if filter_day f \<noteq> []
                       then filter (\<lambda>item. day item = filter_day f) filtered1
                       else filtered1);
          filtered3 = (if filter_type f \<noteq> []
                       then filter (\<lambda>item. type item = filter_type f) filtered2
                       else filtered2);
          filtered4 = (if filter_room f \<noteq> []
                       then filter (\<lambda>item. includes' (toLowerCase (room item)) (toLowerCase (filter_room f))) filtered3
                       else filtered3)
      in s\<lparr>filteredData := filtered4\<rparr>)"

definition clearFilters :: "TimetableManager \<Rightarrow> TimetableManager" where
  "clearFilters s =
     s\<lparr>filters := \<lparr>filter_course = '''', filter_day = '''', filter_type = '''',
                    filter_room = '''', filter_department = ''''\<rparr>\<rparr>"

definition handleCourseSelection :: "string \<Rightarrow> bool \<Rightarrow> TimetableManager \<Rightarrow> TimetableManager" where
  "handleCourseSelection c checked s =
     (if checked then s\<lparr>selectedCourses := selectedCourses s @ [c]\<rparr>
      else s\<lparr>selectedCourses := filter (\<lambda>c'. c' \<noteq> c) (selectedCourses s)\<rparr>)"

section \<open>Conflict check and personal schedule (the requests of the component)\<close>

text \<open>
  \<open>!currentTimetableId\<close> holds for \<open>null\<close> and for the empty string. A missing
  \<open>conflicts\<close> or \<open>recommendations\<close> member of the response is replaced by the empty
  array (\<open>|| []\<close>).
\<close>

definition noTimetableId :: "string option \<Rightarrow> bool" where
  "noTimetableId i = (case i of None \<Rightarrow> True | Some t \<Rightarrow> t = [])"

text \<open>The body of a conflicts response; a member that is missing is \<open>None\<close>.\<close>

record ConflictsResponse =
  conflicts_success :: bool
  data_conflicts :: "ConflictInfo list option"
  data_recommendations :: "ScheduleRecommendation list option"
  conflicts_error :: jsval

text \<open>\<open>value || []\<close>: an array, also an empty one, is truthy.\<close>

definition orEmpty :: "'a list option \<Rightarrow> 'a list" where
  "orEmpty v = (case v of None \<Rightarrow> [] | Some xs \<Rightarrow> xs)"

definition checkConflicts :: "TimetableManager \<Rightarrow> ConflictsResponse awaited \<Rightarrow> TimetableManager" where
  "checkConflicts s r =
     (if noTimetableId (currentTimetableId s) \<or> length (selectedCourses s) = 0
      then s\<lparr>error := Some ''Please select courses to check for conflicts''\<rparr>
      else (case r of
              Threw message \<Rightarrow>
                s\<lparr>error := Some (or_lit message ''Failed to check conflicts''), loading := False\<rparr>
            | Returned response \<Rightarrow>
                if conflicts_success response then
                  s\<lparr>conflicts := orEmpty (data_conflicts response),
                    recommendations := orEmpty (data_recommendations response),
                    showConflictModal := True,
                    loading := False\<rparr>
                else s\<lparr>error := Some (or_lit (conflicts_error response) ''Failed to check conflicts''),
                       loading := False\<rparr>))"

text \<open>
  The entries of a filtered response: \<open>course_name\<close> and \<open>location\<close> are not among
  the aliases here, and \<open>course_code\<close> and \<open>course_name\<close> are copied as they are.
\<close>

definition toScheduleEntry :: "string \<Rightarrow> nat \<Rightarrow> raw_row \<Rightarrow> TimetableEntry" where
  "toScheduleEntry filename index entry =
     \<lparr> id' = filename @ ''_'' @ show_nat index,
       course = or_lit (or_js (entry ''Course'') (entry ''course'')) '''',
       section' = or_lit (or_js (entry ''Section'') (entry ''section'')) '''',
       day = or_lit (or_js (entry ''Day'') (entry ''day'')) '''',
       time = or_lit (or_js (entry ''Time'') (entry ''time'')) '''',
       type = or_lit (or_js (entry ''Type'') (entry ''type'')) ''Theory'',
       room = or_lit (or_js (entry ''Class'') (entry ''room'')) '''',
       instructor = None,
       course_code = entry ''course_code'',
       course_name = entry ''course_name'',
       semester = entry ''semester'' \<rparr>"

definition scheduleEntries :: "(string \<times> raw_row list) list \<Rightarrow> TimetableEntry list" where
  "scheduleEntries filtered_data =
     concat (map (\<lambda>(filename, rows).
                    map (\<lambda>(index, entry). toScheduleEntry filename index entry) (enumerate 0 rows))
                 filtered_data)"

text \<open>
  The body of a filter response: \<open>Object.entries(filtered_data)\<close> pairs each file name with
  the rows of that file, which the API delivers as an array.
\<close>

record FilterResponse =
  filter_success :: bool
  filtered_data :: "(string \<times> raw_row list) list"

definition buildPersonalSchedule :: "TimetableManager \<Rightarrow> FilterResponse awaited \<Rightarrow> TimetableManager" where
  "buildPersonalSchedule s r =
     (if noTimetableId (currentTimetableId s) \<or> length (selectedCourses s) = 0
      then s\<lparr>error := Some ''Please select courses to build schedule''\<rparr>
      else (case r of
              Threw message \<Rightarrow>
                s\<lparr>error := Some (or_lit message ''Failed to build personal schedule''), loading := False\<rparr>
            | Returned response \<Rightarrow>
                if filter_success response then
                  s\<lparr>filteredData := scheduleEntries (filtered_data response),
                    activeTab := ''view'',
                    loading := False\<rparr>
                else s\<lparr>loading := False\<rparr>))"

section \<open>Initial state and sample responses\<close>

text \<open>The \<open>useState\<close> defaults of the component.\<close>

definition initialState :: TimetableManager where
  "initialState =
     \<lparr> activeTab = ''upload'', timetableData = [], filteredData = [], stats = None,
       loading = False, error = None, currentTimetableId = None, conflicts = [],
       recommendations = [], selectedCourses = [], availableCourses = [],
       showConflictModal = False,
       filters = \<lparr>filter_course = '''', filter_day = '''', filter_type = '''',
                   filter_room = '''', filter_department = ''''\<rparr> \<rparr>"

text \<open>The rows of a response in the order in which \<open>allEntries\<close> visits them.\<close>

definition rowsOf :: "dataToProcess \<Rightarrow> raw_row list" where
  "rowsOf d =
     (case d of
        DataArray rows \<Rightarrow> rows
      | DataObject files \<Rightarrow>
          concat (map (\<lambda>(filename, fd). case fd of FileRows rows \<Rightarrow> rows | NotAnArray \<Rightarrow> []) files))"

text \<open>Sample rows: one without any key, one with the three course aliases set.\<close>

definition emptyRow :: raw_row where
  "emptyRow = (\<lambda>key. None)"

definition aliasedRow :: raw_row where
  "aliasedRow = emptyRow(''Course'' := Some ''CS101'', ''course'' := Some ''CS101'',
                         ''course_name'' := Some ''CS101'', ''Day'' := Some ''Monday'',
                         ''Time'' := Some ''09:00-10:30'')"

definition sampleResponse :: TimetableResponse where
  "sampleResponse = \<lparr> success = True, data = DataArray [emptyRow, aliasedRow], response_error = None \<rparr>"

text \<open>A response with one row that has no keys, and one with courses spread over files.\<close>

definition emptyRowResponse :: TimetableResponse where
  "emptyRowResponse = \<lparr> success = True, data = DataArray [emptyRow], response_error = None \<rparr>"

definition coursesResponse :: TimetableResponse where
  "coursesResponse =
     \<lparr> success = True,
       data = DataObject
         [(''a.csv'', FileRows [emptyRow(''Course'' := Some ''CS101''), emptyRow,
                                emptyRow(''course'' := Some ''MATH201'')]),
          (''b.csv'', NotAnArray),
          (''c.csv'', FileRows [emptyRow(''course_name'' := Some ''CS101'')])],
       response_error = None \<rparr>"

text \<open>The position at which a value first occurs in a list (the length, when it does not).\<close>

definition firstIndex :: "'a list \<Rightarrow> 'a \<Rightarrow> nat" where
  "firstIndex xs x = length (takeWhile (\<lambda>y. y \<noteq> x) xs)"

text \<open>
  What the selectable courses of a state have to be: the distinct non-empty course values
  of the loaded entries, listed in the order of their first occurrence, and counted by
  the statistics.
\<close>

definition selectableCoursesOk :: "TimetableManager \<Rightarrow> bool" where
  "selectableCoursesOk s =
     (distinct (availableCourses s)
      \<and> set (availableCourses s) = set (filter (\<lambda>c. c \<noteq> []) (map course (timetableData s)))
      \<and> sorted_wrt (\<lambda>a b. firstIndex (map course (timetableData s)) a
                           < firstIndex (map course (timetableData s)) b) (availableCourses s)
      \<and> map_option uniqueCourses (stats s) = Some (length (availableCourses s)))"

text \<open>A loaded timetable with an identifier and nothing selected.\<close>

definition loadedState :: TimetableManager where
  "loadedState =
     (loadTimetableData (initialState\<lparr>currentTimetableId := Some ''tt-1''\<rparr>) (Returned sampleResponse))"

definition emptyFilterResponse :: FilterResponse where
  "emptyFilterResponse = \<lparr> filter_success = True, filtered_data = [] \<rparr>"

definition emptyConflictsResponse :: ConflictsResponse where
  "emptyConflictsResponse =
     \<lparr> conflicts_success = True, data_conflicts = Some [], data_recommendations = Some [],
       conflicts_error = None \<rparr>"

section \<open>Arrays by reference\<close>

text \<open>
  The state cells hold references to arrays, and after a load \<open>timetableData\<close> and
  \<open>filteredData\<close> refer to the same array. To see that \<open>applyFilters\<close> does not write
  to the array it reads, arrays live in a store addressed by position; the spread
  \<open>[...timetableData]\<close> and each \<open>filter\<close> call allocate a new array.
\<close>

type_synonym addr = nat

type_synonym store = "TimetableEntry list list"

definition alloc :: "'a list list \<Rightarrow> 'a list \<Rightarrow> 'a list list \<times> addr" where
  "alloc h xs = (h @ [xs], length h)"

text \<open>\<open>array.push(x)\<close> writes to the array that the reference denotes.\<close>

definition push :: "'a list list \<Rightarrow> addr \<Rightarrow> 'a \<Rightarrow> 'a list list" where
  "push h a x = h[a := h ! a @ [x]]"

text \<open>
  The cells of the component that the operations on arrays read or write: the two array
  references, the filters, the selection and the identifier of the timetable.
\<close>

record Refs =
  timetableDataRef :: addr
  filteredDataRef :: addr
  filtersCell :: Filters
  selectedCoursesCell :: "string list"
  currentTimetableIdCell :: "string option"

definition filterArray :: "('a \<Rightarrow> bool) \<Rightarrow> 'a list list \<times> addr \<Rightarrow> 'a list list \<times> addr" where
  "filterArray P ha = (case ha of (h, a) \<Rightarrow> alloc h (filter P (h ! a)))"

definition applyFiltersRef :: "(string \<Rightarrow> string) \<Rightarrow> store \<times> Refs \<Rightarrow> store \<times> Refs" where
  "applyFiltersRef toLowerCase hs =
     (case hs of (h, s) \<Rightarrow>
        (let f = filtersCell s;
             filtered0 = alloc h (h ! timetableDataRef s);
             filtered1 = (if filter_course f \<noteq> []
                          then filterArray (\<lambda>item. includes' (toLowerCase (course item)) (toLowerCase (filter_course f))) filtered0
                          else filtered0);
             filtered2 = (if filter_day f \<noteq> []
                          then filterArray (\<lambda>item. day item = filter_day f) filtered1
                          else filtered1);
             filtered3 = (if filter_type f \<noteq> []
                          then filterArray (\<lambda>item. type item = filter_type f) filtered2
                          else filtered2);
             filtered4 = (if filter_room f \<noteq> []
                          then filterArray (\<lambda>item. includes' (toLowerCase (room item)) (toLowerCase (filter_room f))) filtered3
                          else filtered3)
         in (fst filtered4, s\<lparr>filteredDataRef := snd filtered4\<rparr>)))"

text \<open>
  \<open>rows.forEach((entry, index) => allEntries.push({...}))\<close> on the array \<open>allEntries\<close>
  at the address \<open>a\<close>; \<open>mk\<close> is the object literal.
\<close>

definition forEachPush :: "(nat \<Rightarrow> raw_row \<Rightarrow> TimetableEntry) \<Rightarrow> raw_row list \<Rightarrow> addr \<Rightarrow> store \<Rightarrow> store" where
  "forEachPush mk rows a h = foldl (\<lambda>h' (index, entry). push h' a (mk index entry)) h (enumerate 0 rows)"

fun fileEntriesRef :: "addr \<Rightarrow> store \<Rightarrow> string \<times> fileData \<Rightarrow> store" where
  "fileEntriesRef a h (filename, FileRows rows) = forEachPush (toEntry filename) rows a h"
| "fileEntriesRef a h (filename, NotAnArray) = h"

fun allEntriesRef :: "dataToProcess \<Rightarrow> addr \<Rightarrow> store \<Rightarrow> store" where
  "allEntriesRef (DataArray rows) a h = forEachPush (toEntry ''entry'') rows a h"
| "allEntriesRef (DataObject files) a h = foldl (fileEntriesRef a) h files"

text \<open>
  The load on arrays held by reference (\<open>loadTimetableData\<close> and
  \<open>loadTestTimetableData\<close> alike): \<open>const allEntries = []\<close> is a new array
  (\<open>entriesRef\<close>), the rows are pushed onto it, and both cells are set to refer to it.
  The two \<open>filter\<close> calls of the statistics each build an array of entries that no
  cell keeps; the arrays of strings that \<open>map\<close> builds are not arrays of entries.
\<close>

definition loadDataRef :: "store \<times> Refs \<Rightarrow> TimetableResponse awaited \<Rightarrow> store \<times> Refs" where
  "loadDataRef hs r =
     (case hs of (h, s) \<Rightarrow>
        (case r of
           Threw message \<Rightarrow> (h, s)
         | Returned response \<Rightarrow>
             if success response then
               (case alloc h [] of (h0, entriesRef) \<Rightarrow>
                  (let h1 = allEntriesRef (data response) entriesRef h0;
                       theoryRows = filterArray (\<lambda>item. type item = ''Theory'') (h1, entriesRef);
                       labRows = filterArray (\<lambda>item. type item = ''Lab'') (fst theoryRows, entriesRef)
                   in (fst labRows,
                       s\<lparr>timetableDataRef := entriesRef, filteredDataRef := entriesRef\<rparr>)))
             else (h, s)))"

definition scheduleEntriesRef :: "(string \<times> raw_row list) list \<Rightarrow> addr \<Rightarrow> store \<Rightarrow> store" where
  "scheduleEntriesRef files a h =
     foldl (\<lambda>h' (filename, rows). forEachPush (toScheduleEntry filename) rows a h') h files"

text \<open>\<open>buildPersonalSchedule\<close> on arrays held by reference.\<close>

definition buildPersonalScheduleRef :: "store \<times> Refs \<Rightarrow> FilterResponse awaited \<Rightarrow> store \<times> Refs" where
  "buildPersonalScheduleRef hs r =
     (case hs of (h, s) \<Rightarrow>
        if noTimetableId (currentTimetableIdCell s) \<or> length (selectedCoursesCell s) = 0
        then (h, s)
        else (case r of
                Threw message \<Rightarrow> (h, s)
              | Returned response \<Rightarrow>
                  if filter_success response then
                    (case alloc h [] of (h0, entriesRef) \<Rightarrow>
                       (scheduleEntriesRef (filtered_data response) entriesRef h0,
                        s\<lparr>filteredDataRef := entriesRef\<rparr>))
                  else (h, s)))"

text \<open>
  A store with its cells stands for a state of the component when the references are
  valid and the arrays and cells hold what the state holds.
\<close>

definition represents :: "store \<times> Refs \<Rightarrow> TimetableManager \<Rightarrow> bool" where
  "represents hs s =
     (case hs of (h, r) \<Rightarrow>
        timetableDataRef r < length h \<and> filteredDataRef r < length h
        \<and> h ! timetableDataRef r = timetableData s \<and> h ! filteredDataRef r = filteredData s
        \<and> filtersCell r = filters s \<and> selectedCoursesCell r = selectedCourses s
        \<and> currentTimetableIdCell r = currentTimetableId s)"

text \<open>
  For the examples, \<open>toLowerCase\<close> on the characters of ISO 8859-1, a character standing
  for the code point of its number: the capitals \<open>A\<close> to \<open>Z\<close> and U+00C0 to U+00DE
  (without the multiplication sign U+00D7) move up by 32, every other character stays.
\<close>

definition lowerLatin1 :: "char \<Rightarrow> char" where
  "lowerLatin1 c =
     (let n = (of_char c :: nat) in
      if (65 \<le> n \<and> n \<le> 90) \<or> (192 \<le> n \<and> n \<le> 222 \<and> n \<noteq> 215) then char_of (n + 32) else c)"

definition toLowerCaseLatin1 :: "string \<Rightarrow> string" where
  "toLowerCaseLatin1 t = map lowerLatin1 t"

text \<open>The loaded state with the day filter set to Monday and one course selected.\<close>

definition mondayFilterState :: TimetableManager where
  "mondayFilterState =
     loadedState\<lparr>filters := (filters loadedState)\<lparr>filter_day := ''Monday''\<rparr>,
                 selectedCourses := [''CS101'']\<rparr>"

text \<open>A store and its references after a load: one array, referred to by both cells.\<close>

definition loadedRefs :: "store \<times> Refs" where
  "loadedRefs =
     ([timetableData loadedState],
      \<lparr> timetableDataRef = 0, filteredDataRef = 0,
        filtersCell = filters mondayFilterState,
        selectedCoursesCell = [''CS101''], currentTimetableIdCell = Some ''tt-1'' \<rparr>)"

text \<open>A filter response with one file of one row.\<close>

definition scheduleResponse :: FilterResponse where
  "scheduleResponse = \<lparr> filter_success = True, filtered_data = [(''fall.csv'', [aliasedRow])] \<rparr>"

text \<open>
  An allocation keeps every array that was there, and the new reference is valid and
  holds the new contents.
\<close>

definition extends :: "'a list list \<times> addr \<Rightarrow> 'a list list \<Rightarrow> 'a list \<Rightarrow> bool" where
  "extends ha h xs = (take (length h) (fst ha) = h \<and> snd ha < length (fst ha) \<and> fst ha ! snd ha = xs)"

section \<open>The timetable core behind the requests\<close>

text \<open>
  The conflict check, the recommendations and the parsing of time ranges are done by the
  backend that answers the requests of the component. That code is not among the sources,
  which hold only its callers (\<open>checkConflicts\<close>, \<open>buildPersonalSchedule\<close>, the API
  client) and the interfaces of its answers. The definitions of this part follow the text
  of the repository's specification, and each says so.
\<close>

text \<open>Modelled from the spec: the error taxonomy of the core (section 7), whose code is missing.\<close>

datatype CoreError = MalformedTimeRange | MissingRequiredField

text \<open>Modelled from the spec: the day of an entry, \<open>enum{Mon..Sun}\<close> (section 3).\<close>

datatype weekday = Mon | Tue | Wed | Thu | Fri | Sat | Sun

text \<open>Modelled from the spec: the type of an entry, \<open>enum{Theory, Lab}\<close> (section 3).\<close>

datatype class_type = Theory | Lab

text \<open>
  Modelled from the spec: the canonical \<open>TimetableEntry\<close> of the core (section 3), with
  start and end in minutes since midnight as the Time Interval Parser gives them. The
  backend's own entry type is missing from the sources.
\<close>

record Entry =
  entry_course_code :: string
  entry_section :: string
  entry_day :: weekday
  start_time :: nat
  end_time :: nat
  entry_room :: string
  entry_type :: class_type
  entry_instructor :: "string option"

text \<open>Modelled from the spec: \<open>Conflict = { day, entry_a, entry_b }\<close> (section 3).\<close>

record Conflict =
  conflict_day :: weekday
  entry_a :: Entry
  entry_b :: Entry

text \<open>Modelled from the spec: \<open>Recommendation = { conflict, alternative_sections }\<close> (section 3).\<close>

record Recommendation =
  conflict :: Conflict
  alternative_sections :: "Entry list"

text \<open>Modelled from the spec: the day groups of the Overlap Detector are taken in the order of the week.\<close>

definition weekdays :: "weekday list" where
  "weekdays = [Mon, Tue, Wed, Thu, Fri, Sat, Sun]"

text \<open>
  Modelled from the spec: whether the half-open intervals \<open>[start, end)\<close> of two entries
  intersect; the Overlap Detector's test is missing from the sources.
\<close>

definition intersects :: "Entry \<Rightarrow> Entry \<Rightarrow> bool" where
  "intersects a b = (max (start_time a) (start_time b) < min (end_time a) (end_time b))"

text \<open>
  Modelled from the spec: the sort key within a day group: the start, and for equal starts
  the course code in lexical order.
\<close>

definition sweepKey :: "Entry \<Rightarrow> nat \<times> string" where
  "sweepKey e = (start_time e, entry_course_code e)"

text \<open>Modelled from the spec: the conflict reported for a pair, on the day of its first entry.\<close>

definition mkConflict :: "Entry \<Rightarrow> Entry \<Rightarrow> Conflict" where
  "mkConflict a b = \<lparr> conflict_day = entry_day a, entry_a = a, entry_b = b \<rparr>"

text \<open>
  Modelled from the spec: the sweep over a day group sorted by start. Each entry is compared
  with the entries after it, as long as they start before it ends; a pair is reported when
  the intervals intersect and the course codes differ.
\<close>

fun sweep :: "Entry list \<Rightarrow> Conflict list" where
  "sweep [] = []"
| "sweep (a # later) =
     map (mkConflict a)
       (filter (\<lambda>b. intersects a b \<and> entry_course_code a \<noteq> entry_course_code b)
          (takeWhile (\<lambda>b. start_time b < end_time a) later))
     @ sweep later"

text \<open>Modelled from the spec: the restriction to the entries whose course code is selected.\<close>

definition selectedEntries :: "Entry list \<Rightarrow> string list \<Rightarrow> Entry list" where
  "selectedEntries entries selected =
     filter (\<lambda>e. entry_course_code e \<in> set selected) entries"

text \<open>Modelled from the spec: the group of one day.\<close>

definition dayGroup :: "weekday \<Rightarrow> Entry list \<Rightarrow> Entry list" where
  "dayGroup d entries = filter (\<lambda>e. entry_day e = d) entries"

text \<open>
  Modelled from the spec: the Overlap Detector \<open>findConflicts(entries, selectedCourses)\<close>
  (section 4.3), which the backend runs and the sources do not contain: restrict to the
  selected courses, group by day, sort each group by start (ties by course code), sweep.
\<close>

definition findConflicts :: "Entry list \<Rightarrow> string list \<Rightarrow> Conflict list" where
  "findConflicts entries selected =
     concat (map (\<lambda>d. sweep (sort_key sweepKey (dayGroup d (selectedEntries entries selected))))
                 weekdays)"

text \<open>The two entries of the specification's example: Monday 09:00-10:30 and 10:00-11:00.\<close>

definition cs101 :: Entry where
  "cs101 = \<lparr> entry_course_code = ''CS101'', entry_section = ''A'', entry_day = Mon,
             start_time = 540, end_time = 630, entry_room = ''R1'', entry_type = Theory,
             entry_instructor = None \<rparr>"

definition math201 :: Entry where
  "math201 = \<lparr> entry_course_code = ''MATH201'', entry_section = ''B'', entry_day = Mon,
               start_time = 600, end_time = 660, entry_room = ''R2'', entry_type = Theory,
               entry_instructor = None \<rparr>"

text \<open>The conflicts of a sorted day group, as a set.\<close>

definition conflictPairs :: "Entry set \<Rightarrow> Conflict set" where
  "conflictPairs E =
     {mkConflict a b | a b. a \<in> E \<and> b \<in> E \<and> sweepKey a < sweepKey b \<and> intersects a b
        \<and> entry_course_code a \<noteq> entry_course_code b}"

text \<open>The timetable of the specification's example.\<close>

definition exampleEntries :: "Entry list" where
  "exampleEntries = [cs101, math201]"

text \<open>Two entries of selected courses that conflict: same day, common minute, different course.\<close>

definition conflicting :: "string list \<Rightarrow> Entry \<Rightarrow> Entry \<Rightarrow> bool" where
  "conflicting selected a b =
     (entry_course_code a \<in> set selected \<and> entry_course_code b \<in> set selected
      \<and> entry_day a = entry_day b \<and> intersects a b
      \<and> entry_course_code a \<noteq> entry_course_code b)"

text \<open>The reported conflicts between two given entries, in either orientation.\<close>

definition reportsOf :: "Entry \<Rightarrow> Entry \<Rightarrow> Conflict list \<Rightarrow> Conflict list" where
  "reportsOf a b cs =
     filter (\<lambda>c. (entry_a c = a \<and> entry_b c = b) \<or> (entry_a c = b \<and> entry_b c = a)) cs"

section \<open>Time ranges\<close>

text \<open>
  Modelled from the spec: the Time Interval Parser is not among the sources (the component
  keeps the time of a row as text and never parses it). A decimal digit and its value.
\<close>

definition digitValue :: "char \<Rightarrow> nat option" where
  "digitValue c =
     map_of [(CHR ''0'', 0), (CHR ''1'', 1), (CHR ''2'', 2), (CHR ''3'', 3), (CHR ''4'', 4),
             (CHR ''5'', 5), (CHR ''6'', 6), (CHR ''7'', 7), (CHR ''8'', 8), (CHR ''9'', 9)] c"

text \<open>
  Modelled from the spec: a clock time \<open>HH:MM\<close> on the 24-hour clock, as minutes since
  midnight; hours run from 00 to 23 and minutes from 00 to 59, each written with two
  digits.
\<close>

definition clockMinutes :: "char \<Rightarrow> char \<Rightarrow> char \<Rightarrow> char \<Rightarrow> nat option" where
  "clockMinutes h1 h2 m1 m2 =
     (case (digitValue h1, digitValue h2, digitValue m1, digitValue m2) of
        (Some a, Some b, Some c, Some d) \<Rightarrow>
          if 10 * a + b < 24 \<and> 10 * c + d < 60 then Some (60 * (10 * a + b) + (10 * c + d)) else None
      | _ \<Rightarrow> None)"

text \<open>
  Modelled from the spec: the Time Interval Parser. The text must have the shape
  \<open>HH:MM-HH:MM\<close> and the start must lie before the end; the result is the pair of
  minutes since midnight, and anything else fails with \<open>MalformedTimeRange\<close>.
\<close>

definition parseTimeRange :: "string \<Rightarrow> CoreError + (nat \<times> nat)" where
  "parseTimeRange s =
     (case s of
        [h1, h2, c1, m1, m2, d, h3, h4, c2, m3, m4] \<Rightarrow>
          if c1 = CHR '':'' \<and> d = CHR ''-'' \<and> c2 = CHR '':'' then
            (case (clockMinutes h1 h2 m1 m2, clockMinutes h3 h4 m3 m4) of
               (Some start_min, Some end_min) \<Rightarrow>
                 if start_min < end_min then Inr (start_min, end_min) else Inl MalformedTimeRange
             | _ \<Rightarrow> Inl MalformedTimeRange)
          else Inl MalformedTimeRange
      | _ \<Rightarrow> Inl MalformedTimeRange)"

text \<open>
  Modelled from the spec: the policy of the parser's caller. Each row carries its time
  text; a row whose text does not parse is skipped and a warning with the row's index and
  the error is recorded, and the rows after it are processed all the same.
\<close>

fun parseRows :: "nat \<Rightarrow> ('a \<times> string) list \<Rightarrow> ('a \<times> nat \<times> nat) list \<times> (nat \<times> CoreError) list" where
  "parseRows index [] = ([], [])"
| "parseRows index ((row, time_text) # rows) =
     (case parseTimeRange time_text of
        Inl e \<Rightarrow> (fst (parseRows (Suc index) rows), (index, e) # snd (parseRows (Suc index) rows))
      | Inr interval \<Rightarrow> ((row, interval) # fst (parseRows (Suc index) rows), snd (parseRows (Suc index) rows)))"

text \<open>The text of a time range: two digits for each hour and minute.\<close>

definition twoDigits :: "nat \<Rightarrow> string" where
  "twoDigits n = [digit_char (n div 10), digit_char (n mod 10)]"

definition timeRangeText :: "nat \<Rightarrow> nat \<Rightarrow> nat \<Rightarrow> nat \<Rightarrow> string" where
  "timeRangeText h1 m1 h2 m2 =
     twoDigits h1 @ '':'' @ twoDigits m1 @ ''-'' @ twoDigits h2 @ '':'' @ twoDigits m2"

text \<open>Three rows with their time texts; the second is the specification's malformed example.\<close>

definition exampleRows :: "(string \<times> string) list" where
  "exampleRows = [(''CS101'', ''09:00-10:30''), (''PHY110'', ''9-10:30''), (''MATH201'', ''10:00-11:00'')]"

text \<open>What the caller keeps of one row, and whether it warns.\<close>

definition keptOf :: "'a \<times> string \<Rightarrow> ('a \<times> nat \<times> nat) list" where
  "keptOf r = (case parseTimeRange (snd r) of Inl e \<Rightarrow> [] | Inr interval \<Rightarrow> [(fst r, interval)])"

definition malformed :: "string \<Rightarrow> bool" where
  "malformed time_text = (parseTimeRange time_text = Inl MalformedTimeRange)"

section \<open>Recommendations\<close>

text \<open>
  Modelled from the spec: the Recommendation Generator runs in the backend, which is not
  among the sources (the component only displays what the conflict request returns). Two
  entries overlap when they are on the same day and their intervals intersect.
\<close>

definition overlaps :: "Entry \<Rightarrow> Entry \<Rightarrow> bool" where
  "overlaps a b = (entry_day a = entry_day b \<and> intersects a b)"

text \<open>
  Modelled from the spec: the other currently selected entries that a candidate is compared
  with, that is the entries of selected courses without the conflicting entry itself (and
  without the candidate, which is not another entry).
\<close>

definition otherSelected :: "Entry \<Rightarrow> Entry \<Rightarrow> Entry list \<Rightarrow> string list \<Rightarrow> Entry list" where
  "otherSelected side candidate fullSet selected =
     filter (\<lambda>other. entry_course_code other \<in> set selected \<and> other \<noteq> side \<and> other \<noteq> candidate)
       fullSet"

text \<open>
  Modelled from the spec: the alternatives for one side of a conflict, in the order of the
  full set: the entries of the same course code in a different section that overlap with
  none of the other selected entries.
\<close>

definition alternativesFor :: "Entry \<Rightarrow> Entry list \<Rightarrow> string list \<Rightarrow> Entry list" where
  "alternativesFor side fullSet selected =
     filter (\<lambda>candidate.
               entry_course_code candidate = entry_course_code side
               \<and> entry_section candidate \<noteq> entry_section side
               \<and> list_all (\<lambda>other. \<not> overlaps candidate other)
                    (otherSelected side candidate fullSet selected))
       fullSet"

text \<open>
  Modelled from the spec: \<open>recommend(conflict, allEntries, selectedCourses)\<close>. There is no
  failing case: the value is a Recommendation whatever the search finds.
\<close>

definition recommend :: "Conflict \<Rightarrow> Entry list \<Rightarrow> string list \<Rightarrow> Recommendation" where
  "recommend c fullSet selected =
     \<lparr> conflict = c,
       alternative_sections =
         alternativesFor (entry_a c) fullSet selected @ alternativesFor (entry_b c) fullSet selected \<rparr>"




text \<open>
  Modelled from the spec: the Overlap Detector on arrays held by reference (the backend
  code is not among the sources). The restriction to the selected courses and the group of
  each day are new arrays; a day group is sorted in place, which writes to that new array,
  and the sweep reads it.
\<close>

definition sortInPlace :: "Entry list list \<Rightarrow> addr \<Rightarrow> Entry list list" where
  "sortInPlace h g = h[g := sort_key sweepKey (h ! g)]"

text \<open>
  Modelled from the spec: the step of the Overlap Detector for one day, on the array of the
  restricted entries at the address \<open>restricted\<close>.
\<close>

definition dayConflictsRef :: "addr \<Rightarrow> Entry list list \<times> Conflict list \<Rightarrow> weekday \<Rightarrow> Entry list list \<times> Conflict list" where
  "dayConflictsRef restricted hc d =
     (case hc of (h, found) \<Rightarrow>
        (case alloc h (dayGroup d (h ! restricted)) of (h1, g) \<Rightarrow>
           (let h2 = sortInPlace h1 g in (h2, found @ sweep (h2 ! g)))))"

text \<open>
  Modelled from the spec: \<open>findConflicts\<close> on the timetable array at an address; the
  days are taken in the order of the week.
\<close>

definition findConflictsRef :: "Entry list list \<times> addr \<Rightarrow> string list \<Rightarrow> Entry list list \<times> Conflict list" where
  "findConflictsRef ha selected =
     (case ha of (h, a) \<Rightarrow>
        (case alloc h (selectedEntries (h ! a) selected) of (h0, restricted) \<Rightarrow>
           foldl (dayConflictsRef restricted) (h0, []) weekdays))"

text \<open>
  Modelled from the spec: the Recommendation Generator on arrays held by reference: the
  alternatives of each side are collected in a new array.
\<close>

definition recommendRef :: "Entry list list \<times> addr \<Rightarrow> Conflict \<Rightarrow> string list \<Rightarrow> Entry list list \<times> Recommendation" where
  "recommendRef ha c selected =
     (case ha of (h, a) \<Rightarrow>
        (case alloc h (alternativesFor (entry_a c) (h ! a) selected) of (h1, for_a) \<Rightarrow>
           (case alloc h1 (alternativesFor (entry_b c) (h1 ! a) selected) of (h2, for_b) \<Rightarrow>
              (h2, \<lparr> conflict = c, alternative_sections = h2 ! for_a @ h2 ! for_b \<rparr>))))"

section \<open>Facts about the conversion\<close>

lemma length_pushRows: "length (pushRows p rows) = length rows"
  by (simp add: pushRows_def)

lemma nth_pushRows: "i < length rows \<Longrightarrow> pushRows p rows ! i = toEntry p i (rows ! i)"
  by (simp add: pushRows_def nth_enumerate_eq)

lemma pushRows_rel: "list_all2 (\<lambda>e r. \<exists>p k. e = toEntry p k r) (pushRows p rows) rows"
  unfolding list_all2_conv_all_nth
  by (auto simp: length_pushRows nth_pushRows)

lemma fileEntries_rel:
  "list_all2 (\<lambda>e r. \<exists>p k. e = toEntry p k r) (fileEntries f)
     (case f of (filename, fd) \<Rightarrow> (case fd of FileRows rows \<Rightarrow> rows | NotAnArray \<Rightarrow> []))"
proof (cases f)
  case (Pair filename fd)
  then show ?thesis by (cases fd) (simp_all add: pushRows_rel)
qed

lemma allEntries_rel: "list_all2 (\<lambda>e r. \<exists>p k. e = toEntry p k r) (allEntries d) (rowsOf d)"
proof (cases d)
  case (DataArray rows)
  then show ?thesis by (simp add: rowsOf_def pushRows_rel)
next
  case (DataObject files)
  have "list_all2 (\<lambda>e r. \<exists>p k. e = toEntry p k r) (concat (map fileEntries files))
          (concat (map (\<lambda>(filename, fd). case fd of FileRows rows \<Rightarrow> rows | NotAnArray \<Rightarrow> []) files))"
  proof (induction files)
    case Nil
    show ?case by simp
  next
    case (Cons f fs)
    show ?case using fileEntries_rel [of f] Cons.IH
      by (simp add: list_all2_appendI)
  qed
  with DataObject show ?thesis by (simp add: rowsOf_def)
qed

lemma length_allEntries: "length (allEntries d) = length (rowsOf d)"
  using allEntries_rel [of d] by (rule list_all2_lengthD)

lemma nth_allEntries:
  assumes "i < length (rowsOf d)"
  obtains p k where "allEntries d ! i = toEntry p k (rowsOf d ! i)"
  using allEntries_rel [of d] assms by (auto simp: list_all2_conv_all_nth)

lemma loadData_success:
  "success r \<Longrightarrow> loadData msg s (Returned r) =
     s\<lparr>timetableData := allEntries (data r), filteredData := allEntries (data r),
       availableCourses := uniqueCoursesOf (allEntries (data r)),
       stats := Some (newStats (allEntries (data r)))\<rparr>"
  by (simp add: loadData_def Let_def)

lemma course_aliases:
  "a = Some v \<Longrightarrow> b = Some v \<Longrightarrow> c = Some v \<Longrightarrow> or_lit (or_js (or_js a b) c) [] = v"
  by (simp add: or_lit_def or_js_def truthy_def)

lemma course_code_aliases:
  "\<not> truthy x \<Longrightarrow> a = Some v \<Longrightarrow> b = Some v \<Longrightarrow> or_js (or_js x a) b = Some v"
  by (simp add: or_js_def truthy_def)

lemma or_lit_falsy: "\<not> truthy a \<Longrightarrow> or_lit a d = d"
  by (auto simp: or_lit_def truthy_def split: option.splits)

lemma or_js_falsy: "\<not> truthy a \<Longrightarrow> or_js a b = b"
  by (simp add: or_js_def)

text \<open>
  C6. A row whose keys \<open>Course\<close>, \<open>course\<close> and \<open>course_name\<close> all carry the value
  \<open>v\<close> gives one entry, at the row's own position, and the entry's course (the field
  that these three aliases fill) is \<open>v\<close>; a load produces as many entries as the
  response has rows. The entry's separate optional \<open>course_code\<close> field is \<open>v\<close> as
  well unless the row has a non-empty \<open>course_code\<close> key of its own.
\<close>

theorem aliased_row_one_entry:
  assumes "success r" and "i < length (rowsOf (data r))"
    and "(rowsOf (data r) ! i) ''Course'' = Some v"
    and "(rowsOf (data r) ! i) ''course'' = Some v"
    and "(rowsOf (data r) ! i) ''course_name'' = Some v"
  shows "length (timetableData (loadTimetableData s (Returned r))) = length (rowsOf (data r))
       \<and> course (timetableData (loadTimetableData s (Returned r)) ! i) = v
       \<and> (\<not> truthy ((rowsOf (data r) ! i) ''course_code'') \<longrightarrow>
            course_code (timetableData (loadTimetableData s (Returned r)) ! i) = Some v)"
proof -
  obtain p k where e: "allEntries (data r) ! i = toEntry p k (rowsOf (data r) ! i)"
    using assms(2) by (rule nth_allEntries)
  have t: "timetableData (loadTimetableData s (Returned r)) = allEntries (data r)"
    using assms(1) by (simp add: loadTimetableData_def loadData_success)
  have "course (toEntry p k (rowsOf (data r) ! i)) = v"
    using assms(3-5) by (simp add: toEntry_def course_aliases)
  moreover have "\<not> truthy ((rowsOf (data r) ! i) ''course_code'') \<Longrightarrow>
      course_code (toEntry p k (rowsOf (data r) ! i)) = Some v"
    using assms(3,4) by (simp add: toEntry_def course_code_aliases)
  ultimately show ?thesis
    by (simp add: t e length_allEntries)
qed

theorem aliased_row_one_entry_witness:
  "success sampleResponse \<and> 1 < length (rowsOf (data sampleResponse))
   \<and> (rowsOf (data sampleResponse) ! 1) ''Course'' = Some ''CS101''
   \<and> (rowsOf (data sampleResponse) ! 1) ''course'' = Some ''CS101''
   \<and> (rowsOf (data sampleResponse) ! 1) ''course_name'' = Some ''CS101''
   \<and> length (timetableData (loadTimetableData initialState (Returned sampleResponse))) = 2
   \<and> course (timetableData (loadTimetableData initialState (Returned sampleResponse)) ! 1) = ''CS101''
   \<and> course_code (timetableData (loadTimetableData initialState (Returned sampleResponse)) ! 1) = Some ''CS101''"
  using aliased_row_one_entry [of sampleResponse 1 "''CS101''" initialState]
  by (simp add: sampleResponse_def rowsOf_def aliasedRow_def emptyRow_def truthy_def)

section \<open>The selectable courses after a load\<close>

lemma newSet_snoc: "newSet (xs @ [x]) = Set_add (newSet xs) x"
  by (simp add: newSet_def)

lemma set_newSet: "set (newSet xs) = set xs"
  by (induction xs rule: rev_induct) (auto simp: newSet_snoc Set_add_def newSet_def)

lemma distinct_newSet: "distinct (newSet xs)"
  by (induction xs rule: rev_induct) (auto simp: newSet_snoc Set_add_def newSet_def)

lemma firstIndex_append_mem: "a \<in> set xs \<Longrightarrow> firstIndex (xs @ ys) a = firstIndex xs a"
  by (simp add: firstIndex_def takeWhile_append1)

lemma firstIndex_less: "a \<in> set xs \<Longrightarrow> firstIndex xs a < length xs"
  unfolding firstIndex_def by (induction xs) auto

lemma firstIndex_snoc_new: "x \<notin> set xs \<Longrightarrow> firstIndex (xs @ [x]) x = length xs"
  unfolding firstIndex_def by (induction xs) auto

lemma newSet_first_occurrence_order:
  "sorted_wrt (\<lambda>a b. firstIndex xs a < firstIndex xs b) (newSet xs)"
proof (induction xs rule: rev_induct)
  case Nil
  show ?case by (simp add: newSet_def)
next
  case (snoc x xs)
  have old: "sorted_wrt (\<lambda>a b. firstIndex (xs @ [x]) a < firstIndex (xs @ [x]) b) (newSet xs)"
    using snoc.IH
    by (rule sorted_wrt_mono_rel [rotated]) (simp add: set_newSet firstIndex_append_mem)
  show ?case
  proof (cases "x \<in> set xs")
    case True
    then show ?thesis using old by (simp add: newSet_snoc Set_add_def set_newSet)
  next
    case False
    have "\<forall>y\<in>set (newSet xs). firstIndex (xs @ [x]) y < firstIndex (xs @ [x]) x"
      using False by (simp add: set_newSet firstIndex_append_mem firstIndex_less firstIndex_snoc_new)
    then show ?thesis using old False
      by (simp add: newSet_snoc Set_add_def set_newSet sorted_wrt_append)
  qed
qed

lemma uniqueCoursesOf_ok:
  "distinct (uniqueCoursesOf es)
   \<and> set (uniqueCoursesOf es) = set (filter (\<lambda>c. c \<noteq> []) (map course es))
   \<and> sorted_wrt (\<lambda>a b. firstIndex (map course es) a < firstIndex (map course es) b) (uniqueCoursesOf es)"
  unfolding uniqueCoursesOf_def
  by (auto simp: distinct_newSet set_newSet intro: sorted_wrt_filter newSet_first_occurrence_order)

lemma loaded_state_ok:
  assumes "timetableData s = es" and "availableCourses s = uniqueCoursesOf es"
    and "stats s = Some (newStats es)"
  shows "selectableCoursesOk s"
  using uniqueCoursesOf_ok [of es] assms
  by (simp add: selectableCoursesOk_def newStats_def)

text \<open>
  C10. After a successful load (\<open>loadTimetableData\<close>, \<open>loadTestTimetableData\<close>, or the
  local fallback \<open>processFileLocally\<close>) the selectable courses are the distinct non-empty
  course values of the loaded entries in the order of their first occurrence, the empty
  course is not among them, and the statistics count exactly these.
\<close>

theorem available_courses_after_load:
  assumes "success r"
  shows "selectableCoursesOk (loadTimetableData s (Returned r))
       \<and> selectableCoursesOk (loadTestTimetableData s (Returned r))
       \<and> selectableCoursesOk (processFileLocally s)
       \<and> [] \<notin> set (availableCourses (loadTimetableData s (Returned r)))
       \<and> [] \<notin> set (availableCourses (loadTestTimetableData s (Returned r)))
       \<and> [] \<notin> set (availableCourses (processFileLocally s))"
proof -
  have 1: "selectableCoursesOk (loadData msg s (Returned r))" for msg
    using assms by (intro loaded_state_ok [of _ "allEntries (data r)"]) (simp_all add: loadData_success)
  have 2: "selectableCoursesOk (processFileLocally s)"
    by (intro loaded_state_ok [of _ mockData]) (simp_all add: processFileLocally_def)
  have 3: "[] \<notin> set (availableCourses (loadData msg s (Returned r)))" for msg
    using assms by (simp add: loadData_success uniqueCoursesOf_def)
  have 4: "[] \<notin> set (availableCourses (processFileLocally s))"
    by (simp add: processFileLocally_def uniqueCoursesOf_def)
  show ?thesis
    unfolding loadTimetableData_def loadTestTimetableData_def using 1 2 3 4 by simp
qed

theorem available_courses_after_load_witness:
  "success coursesResponse
   \<and> selectableCoursesOk (loadTimetableData initialState (Returned coursesResponse))
   \<and> map course (timetableData (loadTimetableData initialState (Returned coursesResponse)))
       = [''CS101'', '''', ''MATH201'', ''CS101'']
   \<and> availableCourses (loadTimetableData initialState (Returned coursesResponse))
       = [''CS101'', ''MATH201'']
   \<and> map_option uniqueCourses (stats (loadTimetableData initialState (Returned coursesResponse))) = Some 2"
proof -
  have ok: "success coursesResponse"
    by (simp add: coursesResponse_def)
  have loaded: "loadTimetableData initialState (Returned coursesResponse) =
      initialState\<lparr>timetableData := allEntries (data coursesResponse),
        filteredData := allEntries (data coursesResponse),
        availableCourses := uniqueCoursesOf (allEntries (data coursesResponse)),
        stats := Some (newStats (allEntries (data coursesResponse)))\<rparr>"
    using ok by (simp add: loadTimetableData_def loadData_success)
  have courses: "map course (allEntries (data coursesResponse)) = [''CS101'', '''', ''MATH201'', ''CS101'']"
    by (simp add: coursesResponse_def pushRows_def toEntry_def emptyRow_def or_lit_def or_js_def
        truthy_def enumerate_eq_zip)
  have avail: "uniqueCoursesOf (allEntries (data coursesResponse)) = [''CS101'', ''MATH201'']"
    unfolding uniqueCoursesOf_def courses by (simp add: newSet_def Set_add_def)
  show ?thesis
    using available_courses_after_load [OF ok, of initialState] ok courses avail
    by (simp add: loaded newStats_def)
qed

section \<open>Rows with missing fields\<close>

text \<open>
  C5, as the code has it. The loader has no required fields: every row of a successful
  response becomes exactly one entry at the row's own position, no warning or error is
  recorded, and a row without a course or a day gets the empty string there.
\<close>

theorem every_row_yields_entry:
  assumes "success r" and "i < length (rowsOf (data r))"
  shows "length (timetableData (loadTimetableData s (Returned r))) = length (rowsOf (data r))
       \<and> error (loadTimetableData s (Returned r)) = error s
       \<and> (\<not> truthy ((rowsOf (data r) ! i) ''Course'') \<and> \<not> truthy ((rowsOf (data r) ! i) ''course'')
            \<and> \<not> truthy ((rowsOf (data r) ! i) ''course_name'')
          \<longrightarrow> course (timetableData (loadTimetableData s (Returned r)) ! i) = [])
       \<and> (\<not> truthy ((rowsOf (data r) ! i) ''Day'') \<and> \<not> truthy ((rowsOf (data r) ! i) ''day'')
          \<longrightarrow> day (timetableData (loadTimetableData s (Returned r)) ! i) = [])"
proof -
  obtain p k where e: "allEntries (data r) ! i = toEntry p k (rowsOf (data r) ! i)"
    using assms(2) by (rule nth_allEntries)
  have t: "loadTimetableData s (Returned r) =
      s\<lparr>timetableData := allEntries (data r), filteredData := allEntries (data r),
        availableCourses := uniqueCoursesOf (allEntries (data r)),
        stats := Some (newStats (allEntries (data r)))\<rparr>"
    using assms(1) by (simp add: loadTimetableData_def loadData_success)
  show ?thesis
    by (simp add: t e length_allEntries toEntry_def or_lit_falsy or_js_falsy)
qed

theorem every_row_yields_entry_witness:
  "success emptyRowResponse \<and> 0 < length (rowsOf (data emptyRowResponse))
   \<and> length (timetableData (loadTimetableData initialState (Returned emptyRowResponse))) = 1
   \<and> error (loadTimetableData initialState (Returned emptyRowResponse)) = error initialState
   \<and> course (timetableData (loadTimetableData initialState (Returned emptyRowResponse)) ! 0) = []
   \<and> day (timetableData (loadTimetableData initialState (Returned emptyRowResponse)) ! 0) = []"
  using every_row_yields_entry [of emptyRowResponse 0 initialState]
  by (simp add: emptyRowResponse_def rowsOf_def emptyRow_def truthy_def)

text \<open>
  The row without any key is not skipped: it becomes the entry \<open>entry_0\<close> with an empty
  course and day, and no error is recorded.
\<close>

theorem empty_row_not_skipped:
  "timetableData (loadTimetableData initialState (Returned emptyRowResponse)) =
     [\<lparr> id' = ''entry_0'', course = '''', section' = '''', day = '''', time = '''',
        type = ''Theory'', room = '''', instructor = None, course_code = None,
        course_name = None, semester = None \<rparr>]
   \<and> timetableData (loadTimetableData initialState (Returned emptyRowResponse)) \<noteq> []
   \<and> error (loadTimetableData initialState (Returned emptyRowResponse)) = None"
  by (simp add: emptyRowResponse_def loadTimetableData_def loadData_def pushRows_def toEntry_def
      emptyRow_def or_lit_def or_js_def truthy_def initialState_def show_nat.simps digit_char_def
      enumerate_eq_zip Let_def)

text \<open>
  C7, as the code has it. A row without a type gets the type \<open>Theory\<close>, a row without
  a room (none of the keys \<open>Class\<close>, \<open>room\<close>, \<open>location\<close>) gets the empty string as its
  room, and the row is kept. The loader never writes the optional \<open>instructor\<close> field:
  it is left unset, not set to the empty string.
\<close>

theorem defaults_of_missing_fields:
  assumes "success r" and "i < length (rowsOf (data r))"
  shows "length (timetableData (loadTimetableData s (Returned r))) = length (rowsOf (data r))
       \<and> (\<not> truthy ((rowsOf (data r) ! i) ''Type'') \<and> \<not> truthy ((rowsOf (data r) ! i) ''type'')
          \<longrightarrow> type (timetableData (loadTimetableData s (Returned r)) ! i) = ''Theory'')
       \<and> (\<not> truthy ((rowsOf (data r) ! i) ''Class'') \<and> \<not> truthy ((rowsOf (data r) ! i) ''room'')
            \<and> \<not> truthy ((rowsOf (data r) ! i) ''location'')
          \<longrightarrow> room (timetableData (loadTimetableData s (Returned r)) ! i) = [])
       \<and> instructor (timetableData (loadTimetableData s (Returned r)) ! i) = None"
proof -
  obtain p k where e: "allEntries (data r) ! i = toEntry p k (rowsOf (data r) ! i)"
    using assms(2) by (rule nth_allEntries)
  have t: "timetableData (loadTimetableData s (Returned r)) = allEntries (data r)"
    using assms(1) by (simp add: loadTimetableData_def loadData_success)
  show ?thesis
    by (simp add: t e length_allEntries toEntry_def or_lit_falsy or_js_falsy)
qed

theorem defaults_of_missing_fields_witness:
  "success sampleResponse \<and> 1 < length (rowsOf (data sampleResponse))
   \<and> length (timetableData (loadTimetableData initialState (Returned sampleResponse))) = 2
   \<and> type (timetableData (loadTimetableData initialState (Returned sampleResponse)) ! 1) = ''Theory''
   \<and> room (timetableData (loadTimetableData initialState (Returned sampleResponse)) ! 1) = []
   \<and> instructor (timetableData (loadTimetableData initialState (Returned sampleResponse)) ! 1) = None"
  using defaults_of_missing_fields [of sampleResponse 1 initialState]
  by (simp add: sampleResponse_def rowsOf_def aliasedRow_def emptyRow_def truthy_def)

text \<open>The entry of a row without an instructor has no instructor at all, not the empty string.\<close>

theorem missing_instructor_is_unset:
  "map instructor (timetableData (loadTimetableData initialState (Returned emptyRowResponse))) = [None]
   \<and> map instructor (timetableData (loadTimetableData initialState (Returned emptyRowResponse)))
       \<noteq> [Some '''']"
  by (simp add: emptyRowResponse_def loadTimetableData_def loadData_def pushRows_def toEntry_def
      enumerate_eq_zip Let_def)

section \<open>Empty selection, and what the operations leave unchanged\<close>

lemma foldl_push_fresh:
  "foldl (\<lambda>h' (index, entry). push h' (length pre) (mk index entry)) (pre @ [xs]) ies
     = pre @ [xs @ map (\<lambda>(index, entry). mk index entry) ies]"
  by (induction ies arbitrary: xs) (simp_all add: push_def split: prod.splits)

lemma forEachPush_fresh:
  "forEachPush mk rows (length pre) (pre @ [xs])
     = pre @ [xs @ map (\<lambda>(index, entry). mk index entry) (enumerate 0 rows)]"
  unfolding forEachPush_def by (rule foldl_push_fresh)

lemma fileEntriesRef_fresh:
  "fileEntriesRef (length pre) (pre @ [xs]) f = pre @ [xs @ fileEntries f]"
proof (cases f)
  case (Pair filename fd)
  then show ?thesis
    by (cases fd) (simp_all add: forEachPush_fresh pushRows_def)
qed

lemma foldl_fileEntriesRef_fresh:
  "foldl (fileEntriesRef (length pre)) (pre @ [xs]) files
     = pre @ [xs @ concat (map fileEntries files)]"
  by (induction files arbitrary: xs) (simp_all add: fileEntriesRef_fresh)

lemma allEntriesRef_fresh:
  "allEntriesRef d (length pre) (pre @ [xs]) = pre @ [xs @ allEntries d]"
  by (cases d) (simp_all add: forEachPush_fresh pushRows_def foldl_fileEntriesRef_fresh)

lemma scheduleEntriesRef_fresh:
  "scheduleEntriesRef fd (length pre) (pre @ [xs]) = pre @ [xs @ scheduleEntries fd]"
  unfolding scheduleEntriesRef_def scheduleEntries_def
  by (induction fd arbitrary: xs) (simp_all add: forEachPush_fresh split: prod.splits)

lemma loadDataRef_success:
  assumes "success response"
  shows "loadDataRef (h, r) (Returned response)
           = (h @ [allEntries (data response),
                   filter (\<lambda>item. type item = ''Theory'') (allEntries (data response)),
                   filter (\<lambda>item. type item = ''Lab'') (allEntries (data response))],
              r\<lparr>timetableDataRef := length h, filteredDataRef := length h\<rparr>)"
  using assms allEntriesRef_fresh [of "data response" h "[]"]
  by (simp add: loadDataRef_def alloc_def filterArray_def Let_def nth_append)

lemma loadDataRef_failure:
  "loadDataRef (h, r) (Threw message) = (h, r)"
  "\<not> success response \<Longrightarrow> loadDataRef (h, r) (Returned response) = (h, r)"
  by (simp_all add: loadDataRef_def)

lemma buildPersonalScheduleRef_success:
  assumes "\<not> (noTimetableId (currentTimetableIdCell r) \<or> length (selectedCoursesCell r) = 0)"
    and "filter_success response"
  shows "buildPersonalScheduleRef (h, r) (Returned response)
           = (h @ [scheduleEntries (filtered_data response)], r\<lparr>filteredDataRef := length h\<rparr>)"
  using assms scheduleEntriesRef_fresh [of "filtered_data response" h "[]"]
  by (simp add: buildPersonalScheduleRef_def alloc_def)

lemma buildPersonalScheduleRef_other:
  "noTimetableId (currentTimetableIdCell r) \<or> length (selectedCoursesCell r) = 0
     \<Longrightarrow> buildPersonalScheduleRef (h, r) p = (h, r)"
  "buildPersonalScheduleRef (h, r) (Threw message) = (h, r)"
  "\<not> filter_success response \<Longrightarrow> buildPersonalScheduleRef (h, r) (Returned response) = (h, r)"
  by (simp_all add: buildPersonalScheduleRef_def)

lemma extends_alloc: "extends (alloc h xs) h xs"
  by (simp add: extends_def alloc_def)

lemma extends_filterArray:
  assumes "extends ha h xs"
  shows "extends (filterArray P ha) h (filter P xs)"
proof -
  obtain h1 a where ha: "ha = (h1, a)" by (cases ha)
  from assms ha have 1: "take (length h) h1 = h" and 2: "a < length h1" and 3: "h1 ! a = xs"
    by (simp_all add: extends_def)
  have "length (take (length h) h1) = length h"
    using 1 by simp
  then have "length h \<le> length h1"
    by simp
  with 1 2 3 show ?thesis
    by (simp add: ha filterArray_def alloc_def extends_def)
qed

lemma extends_if:
  "extends ha h xs \<Longrightarrow> extends (if c then filterArray P ha else ha) h (if c then filter P xs else xs)"
  by (simp add: extends_filterArray)

lemma applyFiltersRef_extends:
  assumes "filtersCell r = filters s" and "h ! timetableDataRef r = timetableData s"
  shows "extends (fst (applyFiltersRef toLowerCase (h, r)), filteredDataRef (snd (applyFiltersRef toLowerCase (h, r)))) h
           (filteredData (applyFilters toLowerCase s))"
proof -
  define f where "f = filters s"
  define P1 where "P1 = (\<lambda>item::TimetableEntry. includes' (toLowerCase (course item)) (toLowerCase (filter_course f)))"
  define P2 where "P2 = (\<lambda>item::TimetableEntry. day item = filter_day f)"
  define P3 where "P3 = (\<lambda>item::TimetableEntry. type item = filter_type f)"
  define P4 where "P4 = (\<lambda>item::TimetableEntry. includes' (toLowerCase (room item)) (toLowerCase (filter_room f)))"
  define x0 where "x0 = alloc h (h ! timetableDataRef r)"
  define x1 where "x1 = (if filter_course f \<noteq> [] then filterArray P1 x0 else x0)"
  define x2 where "x2 = (if filter_day f \<noteq> [] then filterArray P2 x1 else x1)"
  define x3 where "x3 = (if filter_type f \<noteq> [] then filterArray P3 x2 else x2)"
  define x4 where "x4 = (if filter_room f \<noteq> [] then filterArray P4 x3 else x3)"
  define d0 where "d0 = timetableData s"
  define d1 where "d1 = (if filter_course f \<noteq> [] then filter P1 d0 else d0)"
  define d2 where "d2 = (if filter_day f \<noteq> [] then filter P2 d1 else d1)"
  define d3 where "d3 = (if filter_type f \<noteq> [] then filter P3 d2 else d2)"
  define d4 where "d4 = (if filter_room f \<noteq> [] then filter P4 d3 else d3)"
  have e0: "extends x0 h d0"
    unfolding x0_def d0_def assms(2) by (rule extends_alloc)
  have e1: "extends x1 h d1"
    unfolding x1_def d1_def using e0 by (rule extends_if)
  have e2: "extends x2 h d2"
    unfolding x2_def d2_def using e1 by (rule extends_if)
  have e3: "extends x3 h d3"
    unfolding x3_def d3_def using e2 by (rule extends_if)
  have e4: "extends x4 h d4"
    unfolding x4_def d4_def using e3 by (rule extends_if)
  have a: "applyFiltersRef toLowerCase (h, r) = (fst x4, r\<lparr>filteredDataRef := snd x4\<rparr>)"
    unfolding applyFiltersRef_def x4_def x3_def x2_def x1_def x0_def P1_def P2_def P3_def P4_def f_def
    by (simp add: Let_def assms(1))
  have b: "filteredData (applyFilters toLowerCase s) = d4"
    unfolding applyFilters_def d4_def d3_def d2_def d1_def d0_def P1_def P2_def P3_def P4_def f_def
    by (simp add: Let_def)
  show ?thesis
    using e4 by (simp add: a b)
qed

lemma applyFilters_all_empty:
  assumes "filter_course (filters s) = []" and "filter_day (filters s) = []"
    and "filter_type (filters s) = []" and "filter_room (filters s) = []"
  shows "filteredData (applyFilters toLowerCase s) = timetableData s"
  using assms by (simp add: applyFilters_def Let_def)

text \<open>
  C3, as the code has it. With nothing selected the filter request is never sent:
  \<open>buildPersonalSchedule\<close> and \<open>checkConflicts\<close> only record the error asking to
  select courses and change nothing else. The view filter \<open>applyFilters\<close> with every
  criterion empty shows the whole timetable, not an empty list.
\<close>

theorem empty_selection_behaviour:
  assumes "selectedCourses s = []"
  shows "buildPersonalSchedule s p = s\<lparr>error := Some ''Please select courses to build schedule''\<rparr>
       \<and> checkConflicts s q = s\<lparr>error := Some ''Please select courses to check for conflicts''\<rparr>
       \<and> (filter_course (filters s) = [] \<and> filter_day (filters s) = []
            \<and> filter_type (filters s) = [] \<and> filter_room (filters s) = []
          \<longrightarrow> filteredData (applyFilters toLowerCase s) = timetableData s)"
  using assms
  by (simp add: buildPersonalSchedule_def checkConflicts_def applyFilters_all_empty)

theorem empty_selection_behaviour_witness:
  "selectedCourses loadedState = []
   \<and> buildPersonalSchedule loadedState (Returned emptyFilterResponse)
       = loadedState\<lparr>error := Some ''Please select courses to build schedule''\<rparr>
   \<and> checkConflicts loadedState (Returned emptyConflictsResponse)
       = loadedState\<lparr>error := Some ''Please select courses to check for conflicts''\<rparr>
   \<and> filteredData (applyFilters toLowerCaseLatin1 loadedState) = timetableData loadedState"
proof -
  have sel: "selectedCourses loadedState = []"
    by (simp add: loadedState_def loadTimetableData_def loadData_def sampleResponse_def
        initialState_def Let_def)
  have fil: "filters loadedState = filters initialState"
    by (simp add: loadedState_def loadTimetableData_def loadData_def sampleResponse_def Let_def)
  show ?thesis
    using empty_selection_behaviour [OF sel, of "Returned emptyFilterResponse" "Returned emptyConflictsResponse"] sel
    by (simp add: fil initialState_def)
qed

text \<open>
  With a timetable loaded and nothing selected, the view filter returns the two loaded
  entries, and both requests end in an error message.
\<close>

theorem empty_selection_shows_all_and_reports_error:
  "selectedCourses loadedState = []
   \<and> currentTimetableId loadedState = Some ''tt-1''
   \<and> length (filteredData (applyFilters toLowerCaseLatin1 loadedState)) = 2
   \<and> filteredData (applyFilters toLowerCaseLatin1 loadedState) = timetableData loadedState
   \<and> filteredData (applyFilters toLowerCaseLatin1 loadedState) \<noteq> []
   \<and> error (buildPersonalSchedule loadedState (Returned emptyFilterResponse))
       = Some ''Please select courses to build schedule''
   \<and> error (checkConflicts loadedState (Returned emptyConflictsResponse))
       = Some ''Please select courses to check for conflicts''"
  by (simp add: loadedState_def loadTimetableData_def loadData_def sampleResponse_def
      initialState_def Let_def applyFilters_def pushRows_def enumerate_eq_zip
      buildPersonalSchedule_def checkConflicts_def noTimetableId_def)

section \<open>The conflicts found, as a set\<close>

lemma intersects_sets:
  "intersects a b \<longleftrightarrow> {start_time a..<end_time a} \<inter> {start_time b..<end_time b} \<noteq> {}"
proof -
  have "{start_time a..<end_time a} \<inter> {start_time b..<end_time b}
          = {max (start_time a) (start_time b)..<min (end_time a) (end_time b)}"
    by auto
  then show ?thesis
    by (auto simp: intersects_def)
qed

lemma intersects_starts_before_end: "intersects a b \<Longrightarrow> start_time b < end_time a"
  by (simp add: intersects_def)

lemma sweepKey_start_mono: "sweepKey a \<le> sweepKey b \<Longrightarrow> start_time a \<le> start_time b"
  by (auto simp: sweepKey_def)

lemma sweepKey_differs: "entry_course_code a \<noteq> entry_course_code b \<Longrightarrow> sweepKey a \<noteq> sweepKey b"
  by (simp add: sweepKey_def)

lemma set_weekdays: "set weekdays = UNIV"
proof -
  have "d \<in> set weekdays" for d
    by (cases d) (simp_all add: weekdays_def)
  then show ?thesis by blast
qed

lemma distinct_weekdays: "distinct weekdays"
  by (simp add: weekdays_def)

text \<open>On a list sorted by start, the sweep's early stop loses no entry that starts in time.\<close>

lemma takeWhile_keeps_early:
  assumes "sorted (map sweepKey later)" and "b \<in> set later" and "start_time b < t"
  shows "b \<in> set (takeWhile (\<lambda>e. start_time e < t) later)"
  using assms
proof (induction later)
  case Nil
  then show ?case by simp
next
  case (Cons x xs)
  show ?case
  proof (cases "b = x")
    case True
    with Cons.prems show ?thesis by simp
  next
    case False
    with Cons.prems have b: "b \<in> set xs" by simp
    from Cons.prems(1) b have "sweepKey x \<le> sweepKey b" by auto
    then have "start_time x \<le> start_time b" by (rule sweepKey_start_mono)
    with Cons.prems(3) have x: "start_time x < t" by simp
    from Cons.prems(1) have "sorted (map sweepKey xs)" by simp
    then have "b \<in> set (takeWhile (\<lambda>e. start_time e < t) xs)"
      using b Cons.prems(3) by (rule Cons.IH)
    with x show ?thesis by simp
  qed
qed

lemma sweep_head:
  assumes "sorted (map sweepKey (a # later))"
  shows "set (map (mkConflict a)
            (filter (\<lambda>b. intersects a b \<and> entry_course_code a \<noteq> entry_course_code b)
               (takeWhile (\<lambda>b. start_time b < end_time a) later)))
         = {mkConflict a b | b. b \<in> set later \<and> intersects a b
              \<and> entry_course_code a \<noteq> entry_course_code b}"
    (is "?L = ?R")
proof
  show "?L \<subseteq> ?R"
    by (auto dest: set_takeWhileD)
next
  show "?R \<subseteq> ?L"
  proof
    fix c assume "c \<in> ?R"
    then obtain b where c: "c = mkConflict a b" and b: "b \<in> set later" and i: "intersects a b"
      and d: "entry_course_code a \<noteq> entry_course_code b" by blast
    from assms have "sorted (map sweepKey later)" by simp
    then have "b \<in> set (takeWhile (\<lambda>e. start_time e < end_time a) later)"
      using b intersects_starts_before_end [OF i] by (rule takeWhile_keeps_early)
    with c i d show "c \<in> ?L" by simp
  qed
qed

lemma set_sweep_sorted:
  assumes "sorted (map sweepKey xs)"
  shows "set (sweep xs) = conflictPairs (set xs)"
  using assms
proof (induction xs)
  case Nil
  show ?case by (simp add: conflictPairs_def)
next
  case (Cons a later)
  from Cons.prems have sorted_later: "sorted (map sweepKey later)"
    and le: "\<forall>b\<in>set later. sweepKey a \<le> sweepKey b" by simp_all
  have IH: "set (sweep later) = conflictPairs (set later)"
    using sorted_later by (rule Cons.IH)
  have head: "set (map (mkConflict a)
            (filter (\<lambda>b. intersects a b \<and> entry_course_code a \<noteq> entry_course_code b)
               (takeWhile (\<lambda>b. start_time b < end_time a) later)))
         = {mkConflict a b | b. b \<in> set later \<and> intersects a b
              \<and> entry_course_code a \<noteq> entry_course_code b}"
    using Cons.prems by (rule sweep_head)
  have "conflictPairs (set (a # later))
      = {mkConflict a b | b. b \<in> set later \<and> intersects a b
              \<and> entry_course_code a \<noteq> entry_course_code b} \<union> conflictPairs (set later)"
    (is "?L = ?H \<union> ?T")
  proof
    show "?L \<subseteq> ?H \<union> ?T"
    proof
      fix c assume "c \<in> ?L"
      then obtain x y where c: "c = mkConflict x y" and x: "x \<in> set (a # later)"
        and y: "y \<in> set (a # later)" and k: "sweepKey x < sweepKey y" and i: "intersects x y"
        and d: "entry_course_code x \<noteq> entry_course_code y"
        unfolding conflictPairs_def by blast
      show "c \<in> ?H \<union> ?T"
      proof (cases "x = a")
        case True
        with k y have "y \<in> set later" by auto
        with True c i d show ?thesis by blast
      next
        case False
        with x have x': "x \<in> set later" by simp
        have "y \<noteq> a"
        proof
          assume "y = a"
          with le x' have "sweepKey y \<le> sweepKey x" by simp
          with k show False by simp
        qed
        with y have "y \<in> set later" by simp
        with x' c k i d have "c \<in> ?T" unfolding conflictPairs_def by blast
        then show ?thesis by simp
      qed
    qed
  next
    show "?H \<union> ?T \<subseteq> ?L"
    proof
      fix c assume "c \<in> ?H \<union> ?T"
      then show "c \<in> ?L"
      proof
        assume "c \<in> ?H"
        then obtain b where c: "c = mkConflict a b" and b: "b \<in> set later" and i: "intersects a b"
          and d: "entry_course_code a \<noteq> entry_course_code b" by blast
        from le b have "sweepKey a \<le> sweepKey b" by simp
        with sweepKey_differs [OF d] have "sweepKey a < sweepKey b" by simp
        with c b i d show ?thesis unfolding conflictPairs_def by auto
      next
        assume "c \<in> ?T"
        then show ?thesis unfolding conflictPairs_def by auto
      qed
    qed
  qed
  with head IH show ?case by simp
qed

lemma set_sweep_sort: "set (sweep (sort_key sweepKey xs)) = conflictPairs (set xs)"
  using set_sweep_sorted [of "sort_key sweepKey xs"] by simp

lemma set_findConflicts:
  "set (findConflicts entries selected)
     = {mkConflict a b | a b. a \<in> set entries \<and> b \<in> set entries
          \<and> entry_course_code a \<in> set selected \<and> entry_course_code b \<in> set selected
          \<and> entry_day a = entry_day b \<and> sweepKey a < sweepKey b \<and> intersects a b
          \<and> entry_course_code a \<noteq> entry_course_code b}"
  (is "?L = ?R")
proof -
  have L: "?L = (\<Union>d. conflictPairs (set (dayGroup d (selectedEntries entries selected))))"
    unfolding findConflicts_def by (simp add: set_sweep_sort set_weekdays)
  show ?thesis
  proof
    show "?L \<subseteq> ?R"
    proof
      fix c assume "c \<in> ?L"
      then obtain d where "c \<in> conflictPairs (set (dayGroup d (selectedEntries entries selected)))"
        unfolding L by blast
      then obtain a b where c: "c = mkConflict a b"
        and a: "a \<in> set (dayGroup d (selectedEntries entries selected))"
        and b: "b \<in> set (dayGroup d (selectedEntries entries selected))"
        and k: "sweepKey a < sweepKey b" and i: "intersects a b"
        and n: "entry_course_code a \<noteq> entry_course_code b"
        unfolding conflictPairs_def by blast
      from a b have "a \<in> set entries" and "b \<in> set entries"
        and "entry_course_code a \<in> set selected" and "entry_course_code b \<in> set selected"
        and "entry_day a = entry_day b"
        by (simp_all add: dayGroup_def selectedEntries_def)
      with c k i n show "c \<in> ?R" by blast
    qed
  next
    show "?R \<subseteq> ?L"
    proof
      fix c assume "c \<in> ?R"
      then obtain a b where c: "c = mkConflict a b" and "a \<in> set entries" and "b \<in> set entries"
        and "entry_course_code a \<in> set selected" and "entry_course_code b \<in> set selected"
        and "entry_day a = entry_day b" and k: "sweepKey a < sweepKey b" and i: "intersects a b"
        and d: "entry_course_code a \<noteq> entry_course_code b" by blast
      then have "a \<in> set (dayGroup (entry_day a) (selectedEntries entries selected))"
        and "b \<in> set (dayGroup (entry_day a) (selectedEntries entries selected))"
        by (simp_all add: dayGroup_def selectedEntries_def)
      with c k i d have "c \<in> conflictPairs (set (dayGroup (entry_day a) (selectedEntries entries selected)))"
        unfolding conflictPairs_def by blast
      then show "c \<in> ?L" unfolding L by blast
    qed
  qed
qed

lemma mkConflict_simps [simp]:
  "entry_a (mkConflict a b) = a" "entry_b (mkConflict a b) = b"
  "conflict_day (mkConflict a b) = entry_day a"
  by (simp_all add: mkConflict_def)

lemma mkConflict_inject: "mkConflict a b = mkConflict a' b' \<longleftrightarrow> a = a' \<and> b = b'"
  by (auto simp: mkConflict_def)

lemma intersects_commute: "intersects a b = intersects b a"
  by (auto simp: intersects_def)

lemma findConflicts_member:
  assumes "c \<in> set (findConflicts entries selected)"
  obtains a b where "c = mkConflict a b" and "a \<in> set entries" and "b \<in> set entries"
    and "entry_course_code a \<in> set selected" and "entry_course_code b \<in> set selected"
    and "entry_day a = entry_day b" and "sweepKey a < sweepKey b" and "intersects a b"
    and "entry_course_code a \<noteq> entry_course_code b"
  using assms unfolding set_findConflicts by blast

lemma findConflicts_intro:
  assumes "a \<in> set entries" and "b \<in> set entries"
    and "entry_course_code a \<in> set selected" and "entry_course_code b \<in> set selected"
    and "entry_day a = entry_day b" and "sweepKey a < sweepKey b" and "intersects a b"
    and "entry_course_code a \<noteq> entry_course_code b"
  shows "mkConflict a b \<in> set (findConflicts entries selected)"
  using assms unfolding set_findConflicts by blast

text \<open>
  C1. For two entries of selected courses, a conflict between them (in one orientation or
  the other) is reported exactly when they are on the same day, their half-open intervals
  \<open>[start, end)\<close> have a minute in common, and their course codes differ; and every
  reported conflict is between entries of the input whose courses are selected, on the day
  the two entries share.
\<close>

theorem findConflicts_reports_exactly_overlaps:
  assumes "a \<in> set entries" and "b \<in> set entries"
    and "entry_course_code a \<in> set selected" and "entry_course_code b \<in> set selected"
  shows "((\<exists>c \<in> set (findConflicts entries selected).
             (entry_a c = a \<and> entry_b c = b) \<or> (entry_a c = b \<and> entry_b c = a))
          \<longleftrightarrow> entry_day a = entry_day b
              \<and> {start_time a..<end_time a} \<inter> {start_time b..<end_time b} \<noteq> {}
              \<and> entry_course_code a \<noteq> entry_course_code b)
       \<and> (\<forall>c \<in> set (findConflicts entries selected).
             entry_a c \<in> set entries \<and> entry_b c \<in> set entries
             \<and> entry_course_code (entry_a c) \<in> set selected
             \<and> entry_course_code (entry_b c) \<in> set selected
             \<and> conflict_day c = entry_day (entry_a c)
             \<and> conflict_day c = entry_day (entry_b c))"
proof -
  have fwd: "entry_day a = entry_day b
              \<and> {start_time a..<end_time a} \<inter> {start_time b..<end_time b} \<noteq> {}
              \<and> entry_course_code a \<noteq> entry_course_code b"
    if "\<exists>c \<in> set (findConflicts entries selected).
             (entry_a c = a \<and> entry_b c = b) \<or> (entry_a c = b \<and> entry_b c = a)"
  proof -
    from that obtain c where c: "c \<in> set (findConflicts entries selected)"
      and ab: "(entry_a c = a \<and> entry_b c = b) \<or> (entry_a c = b \<and> entry_b c = a)" by blast
    from c obtain x y where "c = mkConflict x y" and "entry_day x = entry_day y"
      and "intersects x y" and "entry_course_code x \<noteq> entry_course_code y"
      by (rule findConflicts_member)
    with ab have "entry_day a = entry_day b \<and> intersects a b
        \<and> entry_course_code a \<noteq> entry_course_code b"
      using intersects_commute [of a b] by auto
    then show ?thesis
      by (simp add: intersects_sets)
  qed
  have bwd: "\<exists>c \<in> set (findConflicts entries selected).
             (entry_a c = a \<and> entry_b c = b) \<or> (entry_a c = b \<and> entry_b c = a)"
    if "entry_day a = entry_day b
              \<and> {start_time a..<end_time a} \<inter> {start_time b..<end_time b} \<noteq> {}
              \<and> entry_course_code a \<noteq> entry_course_code b"
  proof -
    from that have d: "entry_day a = entry_day b" and i: "intersects a b"
      and n: "entry_course_code a \<noteq> entry_course_code b"
      by (simp_all add: intersects_sets)
    from sweepKey_differs [OF n] consider "sweepKey a < sweepKey b" | "sweepKey b < sweepKey a"
      by (auto simp: neq_iff)
    then show ?thesis
    proof cases
      case 1
      with assms d i n have "mkConflict a b \<in> set (findConflicts entries selected)"
        by (intro findConflicts_intro)
      then show ?thesis by (intro bexI [of _ "mkConflict a b"]) simp_all
    next
      case 2
      with assms d i n have "mkConflict b a \<in> set (findConflicts entries selected)"
        by (intro findConflicts_intro) (simp_all add: intersects_commute [of b a])
      then show ?thesis by (intro bexI [of _ "mkConflict b a"]) simp_all
    qed
  qed
  have sel: "entry_a c \<in> set entries \<and> entry_b c \<in> set entries
             \<and> entry_course_code (entry_a c) \<in> set selected
             \<and> entry_course_code (entry_b c) \<in> set selected
             \<and> conflict_day c = entry_day (entry_a c)
             \<and> conflict_day c = entry_day (entry_b c)"
    if "c \<in> set (findConflicts entries selected)" for c
  proof -
    from that obtain x y where "c = mkConflict x y" and "x \<in> set entries" and "y \<in> set entries"
      and "entry_course_code x \<in> set selected" and "entry_course_code y \<in> set selected"
      and "entry_day x = entry_day y"
      by (rule findConflicts_member)
    then show ?thesis by simp
  qed
  from fwd bwd sel show ?thesis by blast
qed

theorem findConflicts_reports_exactly_overlaps_witness:
  "cs101 \<in> set exampleEntries \<and> math201 \<in> set exampleEntries
   \<and> entry_course_code cs101 \<in> set [''CS101'', ''MATH201'']
   \<and> entry_course_code math201 \<in> set [''CS101'', ''MATH201'']
   \<and> findConflicts exampleEntries [''CS101'', ''MATH201'']
       = [\<lparr> conflict_day = Mon, entry_a = cs101, entry_b = math201 \<rparr>]
   \<and> findConflicts exampleEntries [''CS101''] = []
   \<and> (entry_day cs101 = entry_day math201
        \<and> {start_time cs101..<end_time cs101} \<inter> {start_time math201..<end_time math201} \<noteq> {}
        \<and> entry_course_code cs101 \<noteq> entry_course_code math201)"
proof -
  have m: "cs101 \<in> set exampleEntries" "math201 \<in> set exampleEntries"
    "entry_course_code cs101 \<in> set [''CS101'', ''MATH201'']"
    "entry_course_code math201 \<in> set [''CS101'', ''MATH201'']"
    by (simp_all add: exampleEntries_def cs101_def math201_def)
  have r: "findConflicts exampleEntries [''CS101'', ''MATH201'']
       = [\<lparr> conflict_day = Mon, entry_a = cs101, entry_b = math201 \<rparr>]"
    by (simp add: findConflicts_def weekdays_def dayGroup_def selectedEntries_def exampleEntries_def
        cs101_def math201_def sweepKey_def intersects_def mkConflict_def)
  have e: "findConflicts exampleEntries [''CS101''] = []"
    by (simp add: findConflicts_def weekdays_def dayGroup_def selectedEntries_def exampleEntries_def
        cs101_def math201_def sweepKey_def intersects_def mkConflict_def)
  have "\<exists>c \<in> set (findConflicts exampleEntries [''CS101'', ''MATH201'']).
          (entry_a c = cs101 \<and> entry_b c = math201) \<or> (entry_a c = math201 \<and> entry_b c = cs101)"
    by (simp add: r)
  with findConflicts_reports_exactly_overlaps [OF m] m r e show ?thesis
    by blast
qed

section \<open>Each pair once\<close>

lemma sweep_entry_a:
  "c \<in> set (sweep xs) \<Longrightarrow> entry_a c \<in> set xs \<and> conflict_day c = entry_day (entry_a c)"
  by (induction xs) auto

lemma distinct_sweep: "distinct xs \<Longrightarrow> distinct (sweep xs)"
proof (induction xs)
  case Nil
  show ?case by simp
next
  case (Cons a later)
  have "inj_on (mkConflict a) A" for A
    by (rule inj_onI) (simp add: mkConflict_inject)
  then have 1: "distinct (map (mkConflict a)
       (filter (\<lambda>b. intersects a b \<and> entry_course_code a \<noteq> entry_course_code b)
          (takeWhile (\<lambda>b. start_time b < end_time a) later)))"
    using Cons.prems by (simp add: distinct_map)
  have 2: "distinct (sweep later)"
    using Cons by simp
  have 3: "mkConflict a b \<notin> set (sweep later)" for b
    using sweep_entry_a [of "mkConflict a b" later] Cons.prems by auto
  show ?case
    using 1 2 3 by auto
qed

lemma distinct_concat_by_label:
  assumes "distinct ds" and "\<And>d. distinct (f d)" and "\<And>d c. c \<in> set (f d) \<Longrightarrow> g c = d"
  shows "distinct (concat (map f ds))"
  using assms(1)
proof (induction ds)
  case Nil
  show ?case by simp
next
  case (Cons d ds)
  have "set (f d) \<inter> set (f d') = {}" if "d' \<in> set ds" for d'
  proof -
    from that Cons.prems have "d \<noteq> d'" by auto
    then show ?thesis using assms(3) by blast
  qed
  with Cons assms(2) show ?case by auto
qed

lemma distinct_findConflicts:
  assumes "distinct entries"
  shows "distinct (findConflicts entries selected)"
  unfolding findConflicts_def
proof (rule distinct_concat_by_label [where g = conflict_day])
  show "distinct weekdays" by (rule distinct_weekdays)
next
  fix d
  show "distinct (sweep (sort_key sweepKey (dayGroup d (selectedEntries entries selected))))"
    using assms by (intro distinct_sweep) (simp add: dayGroup_def selectedEntries_def)
next
  fix d c
  assume "c \<in> set (sweep (sort_key sweepKey (dayGroup d (selectedEntries entries selected))))"
  then have "entry_a c \<in> set (sort_key sweepKey (dayGroup d (selectedEntries entries selected)))"
    and "conflict_day c = entry_day (entry_a c)"
    using sweep_entry_a by blast+
  then show "conflict_day c = d"
    by (simp add: dayGroup_def)
qed

lemma reportsOf_ordered:
  assumes "a \<in> set entries" and "b \<in> set entries" and "conflicting selected a b"
    and "sweepKey a < sweepKey b"
  shows "set (reportsOf a b (findConflicts entries selected)) = {mkConflict a b}"
proof
  show "set (reportsOf a b (findConflicts entries selected)) \<subseteq> {mkConflict a b}"
  proof
    fix c assume "c \<in> set (reportsOf a b (findConflicts entries selected))"
    then have c: "c \<in> set (findConflicts entries selected)"
      and ab: "(entry_a c = a \<and> entry_b c = b) \<or> (entry_a c = b \<and> entry_b c = a)"
      by (simp_all add: reportsOf_def)
    from c obtain x y where xy: "c = mkConflict x y" and k: "sweepKey x < sweepKey y"
      by (rule findConflicts_member)
    from ab xy k assms(4) have "x = a \<and> y = b" by auto
    with xy show "c \<in> {mkConflict a b}" by simp
  qed
next
  from assms have "mkConflict a b \<in> set (findConflicts entries selected)"
    unfolding conflicting_def by (intro findConflicts_intro) simp_all
  then show "{mkConflict a b} \<subseteq> set (reportsOf a b (findConflicts entries selected))"
    by (simp add: reportsOf_def)
qed

lemma reportsOf_commute: "reportsOf a b cs = reportsOf b a cs"
  unfolding reportsOf_def by (rule filter_cong) auto

lemma conflicting_commute: "conflicting selected a b = conflicting selected b a"
  by (auto simp: conflicting_def intersects_commute)

lemma reportsOf_once:
  assumes "distinct entries" and "a \<in> set entries" and "b \<in> set entries"
    and "conflicting selected a b"
  shows "length (reportsOf a b (findConflicts entries selected)) = 1"
proof -
  have d: "distinct (reportsOf x y (findConflicts entries selected))" for x y
    unfolding reportsOf_def using distinct_findConflicts [OF assms(1)] by simp
  have one: "length (reportsOf x y (findConflicts entries selected)) = 1"
    if "x \<in> set entries" and "y \<in> set entries" and "conflicting selected x y"
      and "sweepKey x < sweepKey y" for x y
  proof -
    have "card (set (reportsOf x y (findConflicts entries selected))) = 1"
      using reportsOf_ordered [OF that] by simp
    then show ?thesis
      using distinct_card [OF d [of x y]] by simp
  qed
  from assms(4) have "sweepKey a \<noteq> sweepKey b"
    unfolding conflicting_def by (intro sweepKey_differs) simp
  then consider "sweepKey a < sweepKey b" | "sweepKey b < sweepKey a"
    by (auto simp: neq_iff)
  then show ?thesis
  proof cases
    case 1
    with assms show ?thesis by (intro one)
  next
    case 2
    with assms show ?thesis
      using one [of b a] by (simp add: reportsOf_commute [of a b] conflicting_commute [of _ a b])
  qed
qed

lemma findConflicts_one_orientation:
  assumes "c \<in> set (findConflicts entries selected)"
    and "c' \<in> set (findConflicts entries selected)"
  shows "\<not> (entry_a c' = entry_b c \<and> entry_b c' = entry_a c)"
proof
  assume flip: "entry_a c' = entry_b c \<and> entry_b c' = entry_a c"
  from assms(1) obtain x y where "c = mkConflict x y" and "sweepKey x < sweepKey y"
    by (rule findConflicts_member)
  moreover from assms(2) obtain x' y' where "c' = mkConflict x' y'" and "sweepKey x' < sweepKey y'"
    by (rule findConflicts_member)
  ultimately show False using flip by auto
qed

section \<open>How often a pair is reported\<close>

lemma count_list_filter:
  "count_list (filter P xs) x = (if P x then count_list xs x else 0)"
  by (induction xs) auto

lemma count_list_sort_key: "count_list (sort_key f xs) x = count_list xs x"
proof -
  have "count (mset (sort_key f xs)) x = count (mset xs) x"
    by simp
  then show ?thesis
    by (simp only: count_mset)
qed

lemma count_list_notin: "x \<notin> set xs \<Longrightarrow> count_list xs x = 0"
  by (induction xs) auto

lemma count_takeWhile_early:
  assumes "sorted (map sweepKey later)" and "start_time b < t"
  shows "count_list (takeWhile (\<lambda>e. start_time e < t) later) b = count_list later b"
  using assms(1)
proof (induction later)
  case Nil
  show ?case by simp
next
  case (Cons x xs)
  show ?case
  proof (cases "start_time x < t")
    case True
    with Cons show ?thesis by simp
  next
    case False
    have "b \<notin> set (x # xs)"
    proof
      assume "b \<in> set (x # xs)"
      then have "sweepKey x \<le> sweepKey b"
        using Cons.prems by auto
      then have "start_time x \<le> start_time b"
        by (rule sweepKey_start_mono)
      with False assms(2) show False by simp
    qed
    then have "count_list (x # xs) b = 0"
      by (rule count_list_notin)
    with False show ?thesis by simp
  qed
qed

lemma count_map_mkConflict:
  "count_list (map (mkConflict x) ys) (mkConflict a b) = (if x = a then count_list ys b else 0)"
  by (induction ys) (auto simp: mkConflict_inject)

lemma count_sweep_sorted:
  assumes "sorted (map sweepKey xs)" and "intersects a b"
    and "entry_course_code a \<noteq> entry_course_code b" and "sweepKey a < sweepKey b"
  shows "count_list (sweep xs) (mkConflict a b) = count_list xs a * count_list xs b"
  using assms(1)
proof (induction xs)
  case Nil
  show ?case by simp
next
  case (Cons x later)
  then have sorted: "sorted (map sweepKey later)"
    and le: "\<And>y. y \<in> set later \<Longrightarrow> sweepKey x \<le> sweepKey y"
    by auto
  have IH: "count_list (sweep later) (mkConflict a b) = count_list later a * count_list later b"
    using Cons.IH sorted by simp
  have ab: "a \<noteq> b"
    using assms(3) by auto
  define ys where "ys = filter (\<lambda>b. intersects x b \<and> entry_course_code x \<noteq> entry_course_code b)
          (takeWhile (\<lambda>b. start_time b < end_time x) later)"
  have "sweep (x # later) = map (mkConflict x) ys @ sweep later"
    by (simp add: ys_def)
  then have split: "count_list (sweep (x # later)) (mkConflict a b)
      = (if x = a then count_list ys b else 0) + count_list later a * count_list later b"
    by (simp only: count_list_append count_map_mkConflict IH)
  show ?case
  proof (cases "x = a")
    case True
    have "count_list ys b = count_list (takeWhile (\<lambda>e. start_time e < end_time a) later) b"
      using assms(2,3) by (simp add: ys_def True count_list_filter)
    also have "\<dots> = count_list later b"
      using sorted intersects_starts_before_end [OF assms(2)] by (rule count_takeWhile_early)
    finally have "count_list ys b = count_list later b" .
    with split True ab show ?thesis by simp
  next
    case False
    show ?thesis
    proof (cases "x = b")
      case True
      have "a \<notin> set later"
      proof
        assume "a \<in> set later"
        then have "sweepKey b \<le> sweepKey a" using le True by simp
        with assms(4) show False by simp
      qed
      then have "count_list later a = 0"
        by (rule count_list_notin)
      with split False ab show ?thesis by simp
    next
      case xb: False
      with split False show ?thesis by simp
    qed
  qed
qed

lemma count_concat_by_label:
  assumes "distinct ds" and "\<And>d c. c \<in> set (f d) \<Longrightarrow> g c = d"
  shows "count_list (concat (map f ds)) c = (if g c \<in> set ds then count_list (f (g c)) c else 0)"
  using assms(1)
proof (induction ds)
  case Nil
  show ?case by simp
next
  case (Cons d ds)
  have other: "count_list (f d) c = 0" if "g c \<noteq> d"
  proof -
    from that assms(2) have "c \<notin> set (f d)" by blast
    then show ?thesis by (rule count_list_notin)
  qed
  from Cons have IH: "count_list (concat (map f ds)) c
      = (if g c \<in> set ds then count_list (f (g c)) c else 0)"
    and d: "d \<notin> set ds"
    by simp_all
  have step: "count_list (concat (map f (d # ds))) c
      = count_list (f d) c + count_list (concat (map f ds)) c"
    by simp
  show ?case
  proof (cases "g c = d")
    case True
    with IH d step show ?thesis by simp
  next
    case False
    with IH other step show ?thesis by simp
  qed
qed

lemma count_findConflicts:
  assumes "conflicting selected a b" and "sweepKey a < sweepKey b"
  shows "count_list (findConflicts entries selected) (mkConflict a b)
           = count_list entries a * count_list entries b"
proof -
  define f where "f = (\<lambda>d. sweep (sort_key sweepKey (dayGroup d (selectedEntries entries selected))))"
  from assms(1) have sa: "entry_course_code a \<in> set selected"
    and sb: "entry_course_code b \<in> set selected" and day: "entry_day b = entry_day a"
    and i: "intersects a b" and n: "entry_course_code a \<noteq> entry_course_code b"
    by (simp_all add: conflicting_def)
  have label: "conflict_day c = d" if "c \<in> set (f d)" for c d
  proof -
    from that have "entry_a c \<in> set (sort_key sweepKey (dayGroup d (selectedEntries entries selected)))"
      and "conflict_day c = entry_day (entry_a c)"
      unfolding f_def using sweep_entry_a by blast+
    then show ?thesis by (simp add: dayGroup_def)
  qed
  have "findConflicts entries selected = concat (map f weekdays)"
    by (simp add: findConflicts_def f_def)
  then have "count_list (findConflicts entries selected) (mkConflict a b)
      = count_list (f (entry_day a)) (mkConflict a b)"
    using count_concat_by_label [of weekdays f conflict_day "mkConflict a b", OF distinct_weekdays label]
    by (simp add: set_weekdays)
  also have "\<dots> = count_list (sort_key sweepKey (dayGroup (entry_day a) (selectedEntries entries selected))) a
      * count_list (sort_key sweepKey (dayGroup (entry_day a) (selectedEntries entries selected))) b"
    unfolding f_def using i n assms(2) by (intro count_sweep_sorted) simp_all
  also have "\<dots> = count_list entries a * count_list entries b"
    using sa sb day by (simp add: count_list_sort_key dayGroup_def selectedEntries_def count_list_filter)
  finally show ?thesis .
qed

lemma reportsOf_count:
  assumes "conflicting selected a b" and "sweepKey a < sweepKey b"
  shows "length (reportsOf a b (findConflicts entries selected))
           = count_list entries a * count_list entries b"
proof -
  have "reportsOf a b (findConflicts entries selected)
      = filter ((=) (mkConflict a b)) (findConflicts entries selected)"
    unfolding reportsOf_def
  proof (rule filter_cong [OF refl])
    fix c assume "c \<in> set (findConflicts entries selected)"
    then obtain x y where xy: "c = mkConflict x y" and k: "sweepKey x < sweepKey y"
      by (rule findConflicts_member)
    from xy k assms(2)
    show "((entry_a c = a \<and> entry_b c = b) \<or> (entry_a c = b \<and> entry_b c = a)) = (mkConflict a b = c)"
      by (auto simp: mkConflict_inject)
  qed
  then have "length (reportsOf a b (findConflicts entries selected))
      = count_list (findConflicts entries selected) (mkConflict a b)"
    by (simp only: count_list_eq_length_filter)
  then show ?thesis
    using count_findConflicts [OF assms] by simp
qed

lemma reportsOf_product:
  assumes "conflicting selected a b"
  shows "length (reportsOf a b (findConflicts entries selected))
           = count_list entries a * count_list entries b"
proof -
  from assms have "sweepKey a \<noteq> sweepKey b"
    unfolding conflicting_def by (intro sweepKey_differs) simp
  then consider "sweepKey a < sweepKey b" | "sweepKey b < sweepKey a"
    by (auto simp: neq_iff)
  then show ?thesis
  proof cases
    case 1
    with assms show ?thesis by (rule reportsOf_count)
  next
    case 2
    from assms have "conflicting selected b a"
      by (simp add: conflicting_commute [of _ a b])
    from reportsOf_count [OF this 2, of entries] show ?thesis
      by (simp add: reportsOf_commute [of a b] mult.commute)
  qed
qed

lemma mset_findConflicts_permutation:
  assumes "mset entries' = mset entries"
  shows "mset (findConflicts entries' selected) = mset (findConflicts entries selected)"
proof (rule multiset_eqI)
  fix c
  from assms have sets: "set entries' = set entries"
    by (rule mset_eq_setD)
  then have same: "set (findConflicts entries' selected) = set (findConflicts entries selected)"
    by (simp add: set_findConflicts)
  from assms have cnt: "count_list entries' x = count_list entries x" for x
    by (metis count_mset)
  have "count_list (findConflicts entries' selected) c = count_list (findConflicts entries selected) c"
  proof (cases "c \<in> set (findConflicts entries selected)")
    case True
    then obtain x y where c: "c = mkConflict x y"
      and "entry_course_code x \<in> set selected" and "entry_course_code y \<in> set selected"
      and "entry_day x = entry_day y" and k: "sweepKey x < sweepKey y" and "intersects x y"
      and "entry_course_code x \<noteq> entry_course_code y"
      by (rule findConflicts_member)
    then have "conflicting selected x y"
      by (simp add: conflicting_def)
    from count_findConflicts [OF this k, of entries'] count_findConflicts [OF this k, of entries]
    show ?thesis by (simp add: c cnt)
  next
    case False
    with same have "c \<notin> set (findConflicts entries' selected)" by simp
    with False show ?thesis
      by (simp add: count_list_notin)
  qed
  then show "count (mset (findConflicts entries' selected)) c = count (mset (findConflicts entries selected)) c"
    by (simp only: count_mset)
qed

text \<open>
  C2, as the model has it. For every timetable and selection the list of conflicts never
  holds a pair in both orientations, and a permutation of the rows gives the same
  conflicts, each as often as before (so the same set). A conflicting pair of entries is
  reported once for each pair of rows that hold the two entries, which is the product of
  the numbers of their occurrences: exactly once, and the list without repetition, when
  the rows of the timetable are pairwise different.
\<close>

theorem findConflicts_each_pair_once:
  "(\<forall>c \<in> set (findConflicts entries selected). \<forall>c' \<in> set (findConflicts entries selected).
       \<not> (entry_a c' = entry_b c \<and> entry_b c' = entry_a c))
   \<and> (conflicting selected a b \<longrightarrow>
         length (reportsOf a b (findConflicts entries selected))
           = count_list entries a * count_list entries b)
   \<and> (distinct entries \<longrightarrow>
         distinct (findConflicts entries selected)
         \<and> (\<forall>x \<in> set entries. \<forall>y \<in> set entries. conflicting selected x y \<longrightarrow>
               length (reportsOf x y (findConflicts entries selected)) = 1))
   \<and> (mset entries' = mset entries \<longrightarrow>
         mset (findConflicts entries' selected) = mset (findConflicts entries selected)
         \<and> set (findConflicts entries' selected) = set (findConflicts entries selected))"
proof -
  have 1: "\<forall>c \<in> set (findConflicts entries selected). \<forall>c' \<in> set (findConflicts entries selected).
       \<not> (entry_a c' = entry_b c \<and> entry_b c' = entry_a c)"
    using findConflicts_one_orientation by blast
  have 2: "length (reportsOf a b (findConflicts entries selected))
           = count_list entries a * count_list entries b" if "conflicting selected a b"
    using that by (rule reportsOf_product)
  have 3: "distinct (findConflicts entries selected)
         \<and> (\<forall>x \<in> set entries. \<forall>y \<in> set entries. conflicting selected x y \<longrightarrow>
               length (reportsOf x y (findConflicts entries selected)) = 1)" if "distinct entries"
    using distinct_findConflicts [OF that] reportsOf_once [OF that] by blast
  have 4: "mset (findConflicts entries' selected) = mset (findConflicts entries selected)
         \<and> set (findConflicts entries' selected) = set (findConflicts entries selected)"
    if "mset entries' = mset entries"
  proof -
    from that have m: "mset (findConflicts entries' selected) = mset (findConflicts entries selected)"
      by (rule mset_findConflicts_permutation)
    then have "set (findConflicts entries' selected) = set (findConflicts entries selected)"
      by (rule mset_eq_setD)
    with m show ?thesis by simp
  qed
  from 1 2 3 4 show ?thesis by blast
qed

theorem findConflicts_each_pair_once_witness:
  "distinct exampleEntries \<and> mset (rev exampleEntries) = mset exampleEntries
   \<and> conflicting [''CS101'', ''MATH201''] math201 cs101
   \<and> findConflicts exampleEntries [''CS101'', ''MATH201''] = [mkConflict cs101 math201]
   \<and> findConflicts (rev exampleEntries) [''CS101'', ''MATH201''] = [mkConflict cs101 math201]
   \<and> length (reportsOf math201 cs101 (findConflicts exampleEntries [''CS101'', ''MATH201''])) = 1
   \<and> count_list exampleEntries math201 * count_list exampleEntries cs101 = 1
   \<and> set (findConflicts (rev exampleEntries) [''CS101'', ''MATH201''])
       = set (findConflicts exampleEntries [''CS101'', ''MATH201''])"
proof -
  have d: "distinct exampleEntries"
    by (simp add: exampleEntries_def cs101_def math201_def)
  have m: "mset (rev exampleEntries) = mset exampleEntries"
    by simp
  have c: "conflicting [''CS101'', ''MATH201''] math201 cs101"
    by (simp add: conflicting_def intersects_def cs101_def math201_def)
  have r1: "findConflicts exampleEntries [''CS101'', ''MATH201''] = [mkConflict cs101 math201]"
    by (simp add: findConflicts_def weekdays_def dayGroup_def selectedEntries_def exampleEntries_def
        cs101_def math201_def sweepKey_def intersects_def)
  have r2: "findConflicts (rev exampleEntries) [''CS101'', ''MATH201''] = [mkConflict cs101 math201]"
    by (simp add: findConflicts_def weekdays_def dayGroup_def selectedEntries_def exampleEntries_def
        cs101_def math201_def sweepKey_def intersects_def)
  have mem: "math201 \<in> set exampleEntries" "cs101 \<in> set exampleEntries"
    by (simp_all add: exampleEntries_def)
  have n: "count_list exampleEntries math201 * count_list exampleEntries cs101 = 1"
    by (simp add: exampleEntries_def cs101_def math201_def)
  from findConflicts_each_pair_once
    [of exampleEntries "[''CS101'', ''MATH201'']" math201 cs101 "rev exampleEntries"] d m mem c
  have "length (reportsOf math201 cs101 (findConflicts exampleEntries [''CS101'', ''MATH201''])) = 1"
    and "set (findConflicts (rev exampleEntries) [''CS101'', ''MATH201''])
       = set (findConflicts exampleEntries [''CS101'', ''MATH201''])"
    by blast+
  with d m c r1 r2 n show ?thesis by blast
qed

text \<open>
  A timetable in which the row of the first course is there twice: its conflict with the
  second course is in the list twice, so that pair is not reported exactly once.
\<close>

theorem duplicated_row_reported_twice:
  "findConflicts [cs101, cs101, math201] [''CS101'', ''MATH201'']
     = [mkConflict cs101 math201, mkConflict cs101 math201]
   \<and> \<not> distinct (findConflicts [cs101, cs101, math201] [''CS101'', ''MATH201''])
   \<and> length (reportsOf cs101 math201
               (findConflicts [cs101, cs101, math201] [''CS101'', ''MATH201''])) = 2"
proof -
  have r: "findConflicts [cs101, cs101, math201] [''CS101'', ''MATH201'']
     = [mkConflict cs101 math201, mkConflict cs101 math201]"
    by (simp add: findConflicts_def weekdays_def dayGroup_def selectedEntries_def
        cs101_def math201_def sweepKey_def intersects_def)
  show ?thesis
    unfolding r by (simp add: reportsOf_def)
qed

section \<open>Properties of the time range parser\<close>

lemma digitValue_digit_char: "d < 10 \<Longrightarrow> digitValue (digit_char d) = Some d"
proof -
  assume "d < 10"
  then have "d = 0 \<or> d = 1 \<or> d = 2 \<or> d = 3 \<or> d = 4 \<or> d = 5 \<or> d = 6 \<or> d = 7 \<or> d = 8 \<or> d = 9"
    by arith
  then show ?thesis
    by (elim disjE) (simp_all add: digitValue_def digit_char_def)
qed

lemma digitValue_Some: "digitValue c = Some d \<Longrightarrow> d < 10 \<and> c = digit_char d"
  by (auto simp: digitValue_def digit_char_def split: if_splits)

lemma clockMinutes_twoDigits:
  assumes "h < 24" and "m < 60"
  shows "clockMinutes (digit_char (h div 10)) (digit_char (h mod 10))
           (digit_char (m div 10)) (digit_char (m mod 10)) = Some (60 * h + m)"
proof -
  have "h div 10 < 10" "h mod 10 < 10" "m div 10 < 10" "m mod 10 < 10"
    using assms by simp_all
  then show ?thesis
    using assms by (simp add: clockMinutes_def digitValue_digit_char)
qed

lemma clockMinutes_Some:
  assumes "clockMinutes h1 h2 m1 m2 = Some t"
  obtains h m where "h < 24" and "m < 60" and "t = 60 * h + m"
    and "[h1, h2] = twoDigits h" and "[m1, m2] = twoDigits m"
proof -
  from assms obtain a b c d where v: "digitValue h1 = Some a" "digitValue h2 = Some b"
      "digitValue m1 = Some c" "digitValue m2 = Some d"
    and r: "10 * a + b < 24" "10 * c + d < 60" and t: "t = 60 * (10 * a + b) + (10 * c + d)"
    by (auto simp: clockMinutes_def split: option.splits if_splits)
  from v have lt: "a < 10" "b < 10" "c < 10" "d < 10"
    and ch: "h1 = digit_char a" "h2 = digit_char b" "m1 = digit_char c" "m2 = digit_char d"
    by (auto dest: digitValue_Some)
  have "[h1, h2] = twoDigits (10 * a + b)" "[m1, m2] = twoDigits (10 * c + d)"
    using lt ch by (simp_all add: twoDigits_def)
  with r t show ?thesis by (rule that)
qed

lemma parseTimeRange_shape:
  assumes "parseTimeRange s = Inr (a, b)"
  obtains h1 h2 m1 m2 h3 h4 m3 m4 where "s = [h1, h2, CHR '':'', m1, m2, CHR ''-'', h3, h4, CHR '':'', m3, m4]"
    and "clockMinutes h1 h2 m1 m2 = Some a" and "clockMinutes h3 h4 m3 m4 = Some b" and "a < b"
  using assms unfolding parseTimeRange_def
  by (auto split: list.splits if_splits option.splits)

lemma parseTimeRange_text:
  assumes "h1 < 24" and "m1 < 60" and "h2 < 24" and "m2 < 60"
  shows "parseTimeRange (timeRangeText h1 m1 h2 m2) =
           (if 60 * h1 + m1 < 60 * h2 + m2 then Inr (60 * h1 + m1, 60 * h2 + m2)
            else Inl MalformedTimeRange)"
  using assms
  by (simp add: parseTimeRange_def timeRangeText_def twoDigits_def clockMinutes_twoDigits)

lemma parseTimeRange_Inl: "parseTimeRange s = Inl e \<Longrightarrow> e = MalformedTimeRange"
  unfolding parseTimeRange_def
  by (auto split: list.splits if_splits option.splits)

lemma parseTimeRange_Inr_iff:
  "parseTimeRange s = Inr (a, b) \<longleftrightarrow>
     a < b \<and> (\<exists>h1 m1 h2 m2. h1 < 24 \<and> m1 < 60 \<and> h2 < 24 \<and> m2 < 60
                \<and> s = timeRangeText h1 m1 h2 m2 \<and> a = 60 * h1 + m1 \<and> b = 60 * h2 + m2)"
proof
  assume "parseTimeRange s = Inr (a, b)"
  then obtain c1 c2 c3 c4 c5 c6 c7 c8
    where s: "s = [c1, c2, CHR '':'', c3, c4, CHR ''-'', c5, c6, CHR '':'', c7, c8]"
      and t1: "clockMinutes c1 c2 c3 c4 = Some a" and t2: "clockMinutes c5 c6 c7 c8 = Some b"
      and lt: "a < b"
    by (rule parseTimeRange_shape)
  from t1 obtain h1 m1 where 1: "h1 < 24" "m1 < 60" "a = 60 * h1 + m1"
      "[c1, c2] = twoDigits h1" "[c3, c4] = twoDigits m1"
    by (rule clockMinutes_Some)
  from t2 obtain h2 m2 where 2: "h2 < 24" "m2 < 60" "b = 60 * h2 + m2"
      "[c5, c6] = twoDigits h2" "[c7, c8] = twoDigits m2"
    by (rule clockMinutes_Some)
  have "s = timeRangeText h1 m1 h2 m2"
    unfolding timeRangeText_def 1(4,5) [symmetric] 2(4,5) [symmetric] s by simp
  with lt 1 2 show "a < b \<and> (\<exists>h1 m1 h2 m2. h1 < 24 \<and> m1 < 60 \<and> h2 < 24 \<and> m2 < 60
                \<and> s = timeRangeText h1 m1 h2 m2 \<and> a = 60 * h1 + m1 \<and> b = 60 * h2 + m2)"
    by blast
next
  assume "a < b \<and> (\<exists>h1 m1 h2 m2. h1 < 24 \<and> m1 < 60 \<and> h2 < 24 \<and> m2 < 60
                \<and> s = timeRangeText h1 m1 h2 m2 \<and> a = 60 * h1 + m1 \<and> b = 60 * h2 + m2)"
  then obtain h1 m1 h2 m2 where "a < b" and "h1 < 24" "m1 < 60" "h2 < 24" "m2 < 60"
    and "s = timeRangeText h1 m1 h2 m2" and "a = 60 * h1 + m1" and "b = 60 * h2 + m2"
    by blast
  then show "parseTimeRange s = Inr (a, b)"
    by (simp add: parseTimeRange_text)
qed

lemma parseTimeRange_total:
  "parseTimeRange s = Inl MalformedTimeRange \<or> (\<exists>a b. parseTimeRange s = Inr (a, b))"
proof (cases "parseTimeRange s")
  case (Inl e)
  then show ?thesis using parseTimeRange_Inl [of s e] by simp
next
  case (Inr ab)
  then show ?thesis by (cases ab) simp
qed

lemma parseRows_kept: "fst (parseRows i rows) = concat (map keptOf rows)"
  by (induction rows arbitrary: i) (auto simp: keptOf_def split: sum.splits)

lemma parseRows_warnings:
  "snd (parseRows i rows) =
     map (\<lambda>k. (i + k, MalformedTimeRange)) (filter (\<lambda>k. malformed (snd (rows ! k))) [0..<length rows])"
proof (induction rows arbitrary: i)
  case Nil
  show ?case by simp
next
  case (Cons r rows)
  obtain row t where r: "r = (row, t)" by (cases r)
  have shift: "filter (\<lambda>k. malformed (snd ((r # rows) ! k))) [0..<length (r # rows)]
      = (if malformed t then [0] else [])
        @ map Suc (filter (\<lambda>k. malformed (snd (rows ! k))) [0..<length rows])"
  proof -
    have "[0..<Suc (length rows)] = 0 # [Suc 0..<Suc (length rows)]"
      by (rule upt_conv_Cons) simp
    then have "[0..<length (r # rows)] = 0 # map Suc [0..<length rows]"
      by (simp only: length_Cons map_Suc_upt)
    then show ?thesis
      by (simp add: r filter_map comp_def)
  qed
  show ?case
  proof (cases "parseTimeRange t")
    case (Inl e)
    then have "e = MalformedTimeRange" by (rule parseTimeRange_Inl)
    with Inl show ?thesis
      unfolding shift by (simp add: r Cons.IH malformed_def comp_def)
  next
    case (Inr interval)
    then show ?thesis
      unfolding shift by (simp add: r Cons.IH malformed_def comp_def)
  qed
qed

lemma parseRows_lengths: "length (fst (parseRows i rows)) + length (snd (parseRows i rows)) = length rows"
  by (induction rows arbitrary: i) (auto split: sum.splits)

lemma parseRows_append:
  "parseRows i (xs @ ys) =
     (fst (parseRows i xs) @ fst (parseRows (i + length xs) ys),
      snd (parseRows i xs) @ snd (parseRows (i + length xs) ys))"
  by (induction xs arbitrary: i) (auto split: sum.splits)

text \<open>
  C4. The parser returns the pair of minutes exactly for the texts of the shape
  \<open>HH:MM-HH:MM\<close> (hours below 24, minutes below 60, two digits each) whose start lies
  before the end, and fails with \<open>MalformedTimeRange\<close> for every other text. Its caller
  keeps the rows that parse, in their order, records for each row that does not parse
  one warning with the row's index and \<open>MalformedTimeRange\<close>, and goes on with the rows
  after it: the rows behind a prefix are treated as they would be on their own.
\<close>

theorem parseTimeRange_and_skip_policy:
  "(parseTimeRange s = Inr (a, b) \<longleftrightarrow>
      a < b \<and> (\<exists>h1 m1 h2 m2. h1 < 24 \<and> m1 < 60 \<and> h2 < 24 \<and> m2 < 60
                 \<and> s = timeRangeText h1 m1 h2 m2 \<and> a = 60 * h1 + m1 \<and> b = 60 * h2 + m2))
   \<and> (parseTimeRange s = Inl MalformedTimeRange \<or> (\<exists>a b. parseTimeRange s = Inr (a, b)))
   \<and> fst (parseRows i rows) = concat (map keptOf rows)
   \<and> snd (parseRows i rows) =
        map (\<lambda>k. (i + k, MalformedTimeRange))
          (filter (\<lambda>k. malformed (snd (rows ! k))) [0..<length rows])
   \<and> length (fst (parseRows i rows)) + length (snd (parseRows i rows)) = length rows
   \<and> parseRows i (rows @ rest) =
        (fst (parseRows i rows) @ fst (parseRows (i + length rows) rest),
         snd (parseRows i rows) @ snd (parseRows (i + length rows) rest))"
  using parseTimeRange_Inr_iff [of s a b] parseTimeRange_total [of s]
    parseRows_kept [of i rows] parseRows_warnings [of i rows] parseRows_lengths [of i rows]
    parseRows_append [of i rows rest]
  by blast

theorem parseTimeRange_and_skip_policy_witness:
  "parseTimeRange ''09:00-10:30'' = Inr (540, 630)
   \<and> (540::nat) < 630 \<and> ''09:00-10:30'' = timeRangeText 9 0 10 30
   \<and> parseTimeRange ''9-10:30'' = Inl MalformedTimeRange
   \<and> parseTimeRange ''10:30-09:00'' = Inl MalformedTimeRange
   \<and> parseRows 0 exampleRows
       = ([(''CS101'', 540, 630), (''MATH201'', 600, 660)], [(1, MalformedTimeRange)])
   \<and> length (fst (parseRows 0 exampleRows)) + length (snd (parseRows 0 exampleRows)) = length exampleRows"
proof -
  have t: "''09:00-10:30'' = timeRangeText 9 0 10 30"
    by (simp add: timeRangeText_def twoDigits_def digit_char_def)
  have "\<exists>h1 m1 h2 m2. h1 < 24 \<and> m1 < 60 \<and> h2 < 24 \<and> m2 < 60
          \<and> ''09:00-10:30'' = timeRangeText h1 m1 h2 m2 \<and> (540::nat) = 60 * h1 + m1
          \<and> (630::nat) = 60 * h2 + m2"
    by (intro exI [of _ 9] exI [of _ 0] exI [of _ 10] exI [of _ 30]) (simp add: t)
  then have p: "parseTimeRange ''09:00-10:30'' = Inr (540, 630)"
    using parseTimeRange_and_skip_policy [of "''09:00-10:30''" 540 630 0 exampleRows "[]"]
    by simp
  have m1: "parseTimeRange ''9-10:30'' = Inl MalformedTimeRange"
    by (simp add: parseTimeRange_def)
  have m2: "parseTimeRange ''10:30-09:00'' = Inl MalformedTimeRange"
    by (simp add: parseTimeRange_def clockMinutes_def digitValue_def)
  have r: "parseRows 0 exampleRows
       = ([(''CS101'', 540, 630), (''MATH201'', 600, 660)], [(1, MalformedTimeRange)])"
    by (simp add: exampleRows_def parseTimeRange_def clockMinutes_def digitValue_def)
  have l: "length (fst (parseRows 0 exampleRows)) + length (snd (parseRows 0 exampleRows)) = length exampleRows"
    using parseTimeRange_and_skip_policy [of "''09:00-10:30''" 540 630 0 exampleRows "[]"]
    by blast
  have n: "(540::nat) < 630"
    by simp
  show ?thesis
    using p t m1 m2 r l n by blast
qed

section \<open>Properties of the recommendations\<close>






section \<open>No operation writes to the timetable it is given\<close>

lemma dayConflictsRef_step:
  assumes "restricted < length h"
  shows "dayConflictsRef restricted (h, found) d
           = (h @ [sort_key sweepKey (dayGroup d (h ! restricted))],
              found @ sweep (sort_key sweepKey (dayGroup d (h ! restricted))))"
  using assms by (simp add: dayConflictsRef_def alloc_def sortInPlace_def Let_def)

lemma foldl_dayConflictsRef:
  assumes "restricted < length h"
  shows "foldl (dayConflictsRef restricted) (h, found) ds
           = (h @ map (\<lambda>d. sort_key sweepKey (dayGroup d (h ! restricted))) ds,
              found @ concat (map (\<lambda>d. sweep (sort_key sweepKey (dayGroup d (h ! restricted)))) ds))"
  using assms
proof (induction ds arbitrary: h found)
  case Nil
  show ?case by simp
next
  case (Cons d ds)
  have "restricted < length (h @ [sort_key sweepKey (dayGroup d (h ! restricted))])"
    using Cons.prems by simp
  from Cons.IH [OF this] Cons.prems show ?case
    by (simp add: dayConflictsRef_step nth_append)
qed

lemma findConflictsRef_eq:
  assumes "a < length h"
  shows "findConflictsRef (h, a) selected
           = (h @ selectedEntries (h ! a) selected
                # map (\<lambda>d. sort_key sweepKey (dayGroup d (selectedEntries (h ! a) selected))) weekdays,
              findConflicts (h ! a) selected)"
  using assms foldl_dayConflictsRef [of "length h" "h @ [selectedEntries (h ! a) selected]" "[]" weekdays]
  by (simp add: findConflictsRef_def alloc_def findConflicts_def nth_append)

lemma recommendRef_eq:
  assumes "a < length h"
  shows "recommendRef (h, a) c selected
           = (h @ [alternativesFor (entry_a c) (h ! a) selected,
                   alternativesFor (entry_b c) (h ! a) selected],
              recommend c (h ! a) selected)"
  using assms by (simp add: recommendRef_def alloc_def recommend_def nth_append)

lemma represents_loadDataRef:
  assumes "represents (h, r) s"
  shows "represents (loadDataRef (h, r) response) (loadData failed s response)"
proof (cases response)
  case (Threw message)
  with assms show ?thesis
    by (simp add: loadDataRef_failure loadData_def represents_def)
next
  case (Returned resp)
  show ?thesis
  proof (cases "success resp")
    case True
    with assms show ?thesis
      by (simp add: Returned loadDataRef_success loadData_def represents_def Let_def)
  next
    case False
    with assms show ?thesis
      by (simp add: Returned loadDataRef_failure loadData_def represents_def)
  qed
qed

lemma frame_loadDataRef: "take (length h) (fst (loadDataRef (h, r) response)) = h"
proof (cases response)
  case (Threw message)
  then show ?thesis by (simp add: loadDataRef_failure)
next
  case (Returned resp)
  then show ?thesis
    by (cases "success resp") (simp_all add: loadDataRef_success loadDataRef_failure)
qed

lemma buildPersonalScheduleRef_cases:
  "buildPersonalScheduleRef (h, r) p = (h, r)
   \<or> (\<exists>resp. p = Returned resp \<and> filter_success resp
          \<and> \<not> (noTimetableId (currentTimetableIdCell r) \<or> length (selectedCoursesCell r) = 0)
          \<and> buildPersonalScheduleRef (h, r) p
               = (h @ [scheduleEntries (filtered_data resp)], r\<lparr>filteredDataRef := length h\<rparr>))"
proof (cases "noTimetableId (currentTimetableIdCell r) \<or> length (selectedCoursesCell r) = 0")
  case True
  then show ?thesis by (simp add: buildPersonalScheduleRef_other)
next
  case guard: False
  show ?thesis
  proof (cases p)
    case (Threw message)
    then show ?thesis by (simp add: buildPersonalScheduleRef_other)
  next
    case (Returned resp)
    show ?thesis
    proof (cases "filter_success resp")
      case True
      with guard Returned buildPersonalScheduleRef_success [OF guard True, of h] show ?thesis
        by simp
    next
      case False
      with Returned show ?thesis by (simp add: buildPersonalScheduleRef_other)
    qed
  qed
qed

lemma frame_buildPersonalScheduleRef:
  "take (length h) (fst (buildPersonalScheduleRef (h, r) p)) = h"
  using buildPersonalScheduleRef_cases [of h r p] by auto

lemma represents_buildPersonalScheduleRef:
  assumes "represents (h, r) s"
  shows "represents (buildPersonalScheduleRef (h, r) p) (buildPersonalSchedule s p)"
proof -
  from assms have cells: "selectedCoursesCell r = selectedCourses s"
    "currentTimetableIdCell r = currentTimetableId s"
    by (simp_all add: represents_def)
  show ?thesis
  proof (cases "noTimetableId (currentTimetableId s) \<or> length (selectedCourses s) = 0")
    case True
    with assms cells show ?thesis
      by (simp add: buildPersonalScheduleRef_def buildPersonalSchedule_def represents_def)
  next
    case guard: False
    show ?thesis
    proof (cases p)
      case (Threw message)
      with assms guard cells show ?thesis
        by (simp add: buildPersonalScheduleRef_def buildPersonalSchedule_def represents_def)
    next
      case (Returned resp)
      show ?thesis
      proof (cases "filter_success resp")
        case True
        from guard cells
        have g: "\<not> (noTimetableId (currentTimetableIdCell r) \<or> length (selectedCoursesCell r) = 0)"
          by simp
        from assms guard True show ?thesis
          by (simp add: Returned buildPersonalScheduleRef_success [OF g True]
              buildPersonalSchedule_def represents_def nth_append)
      next
        case False
        with assms guard cells show ?thesis
          by (simp add: Returned buildPersonalScheduleRef_def buildPersonalSchedule_def represents_def)
      qed
    qed
  qed
qed

lemma represents_applyFiltersRef:
  assumes "represents (h, r) s"
  shows "represents (applyFiltersRef toLowerCase (h, r)) (applyFilters toLowerCase s)"
    and "take (length h) (fst (applyFiltersRef toLowerCase (h, r))) = h"
    and "length h \<le> filteredDataRef (snd (applyFiltersRef toLowerCase (h, r)))"
proof -
  from assms have f: "filtersCell r = filters s" and t: "h ! timetableDataRef r = timetableData s"
    and v: "timetableDataRef r < length h"
    and c: "selectedCoursesCell r = selectedCourses s" "currentTimetableIdCell r = currentTimetableId s"
    by (simp_all add: represents_def)
  define X where "X = applyFiltersRef toLowerCase (h, r)"
  have e: "extends (fst X, filteredDataRef (snd X)) h (filteredData (applyFilters toLowerCase s))"
    unfolding X_def using f t by (rule applyFiltersRef_extends)
  then have 1: "take (length h) (fst X) = h"
    and 2: "filteredDataRef (snd X) < length (fst X)"
    and 3: "fst X ! filteredDataRef (snd X) = filteredData (applyFilters toLowerCase s)"
    by (simp_all add: extends_def)
  have cells: "timetableDataRef (snd X) = timetableDataRef r" "filtersCell (snd X) = filtersCell r"
    "selectedCoursesCell (snd X) = selectedCoursesCell r"
    "currentTimetableIdCell (snd X) = currentTimetableIdCell r"
    by (simp_all add: X_def applyFiltersRef_def Let_def)
  have "length (take (length h) (fst X)) = length h"
    using 1 by simp
  then have len: "length h \<le> length (fst X)"
    by simp
  have "take (length h) (fst X) ! timetableDataRef r = fst X ! timetableDataRef r"
    using v by (rule nth_take)
  then have 4: "fst X ! timetableDataRef r = timetableData s"
    by (simp add: 1 t)
  have st: "timetableData (applyFilters toLowerCase s) = timetableData s"
    "filters (applyFilters toLowerCase s) = filters s"
    "selectedCourses (applyFilters toLowerCase s) = selectedCourses s"
    "currentTimetableId (applyFilters toLowerCase s) = currentTimetableId s"
    by (simp_all add: applyFilters_def Let_def)
  have "represents (fst X, snd X) (applyFilters toLowerCase s)"
    unfolding represents_def prod.case using v len 2 3 4 cells st f c by simp
  then show "represents (applyFiltersRef toLowerCase (h, r)) (applyFilters toLowerCase s)"
    by (simp add: X_def)
  show "take (length h) (fst (applyFiltersRef toLowerCase (h, r))) = h"
    using 1 by (simp add: X_def)
  show "length h \<le> filteredDataRef (snd (applyFiltersRef toLowerCase (h, r)))"
    by (simp add: applyFiltersRef_def Let_def filterArray_def alloc_def split: prod.splits if_splits)
qed

lemma represents_checkConflicts:
  assumes "represents (h, r) s"
  shows "represents (h, r) (checkConflicts s q)"
  using assms by (simp add: represents_def checkConflicts_def split: awaited.splits)

lemma frame_nth:
  assumes "take (length h) h' = h" and "a < length h"
  shows "h' ! a = h ! a"
proof -
  have "take (length h) h' ! a = h' ! a"
    using assms(2) by (rule nth_take)
  with assms(1) show ?thesis by simp
qed

text \<open>
  C9. With arrays held by reference, no operation writes to an array that existed before
  the call: after it, the store still begins with the arrays it held, each with the same
  entries, and what the operation produces is in arrays it allocated. This holds for the
  load that converts the rows (it builds a new array and sets both cells to it; the array
  that held the timetable before keeps its entries), for the view filter, also when the
  filtered view and the timetable are the same array, and for the schedule builder; the
  conflict check touches no array and no array cell. The stores after the operations stand
  for the states that the operations on the component state give. For the operations of
  the backend, taken from the specification, the same holds: \<open>findConflicts\<close> sorts
  copies, \<open>recommend\<close> only reads, and their results are those of the functions on the
  entries of the array they were given. Filtering a second time gives the same state.
\<close>

theorem operations_leave_timetable_unchanged:
  assumes "represents (h, r) s" and "a < length hb"
  shows "take (length h) (fst (loadDataRef (h, r) response)) = h
       \<and> fst (loadDataRef (h, r) response) ! timetableDataRef r = timetableData s
       \<and> represents (loadDataRef (h, r) response) (loadTimetableData s response)
       \<and> represents (loadDataRef (h, r) response) (loadTestTimetableData s response)
       \<and> take (length h) (fst (applyFiltersRef toLowerCase (h, r))) = h
       \<and> fst (applyFiltersRef toLowerCase (h, r)) ! timetableDataRef r = timetableData s
       \<and> timetableDataRef (snd (applyFiltersRef toLowerCase (h, r))) = timetableDataRef r
       \<and> length h \<le> filteredDataRef (snd (applyFiltersRef toLowerCase (h, r)))
       \<and> represents (applyFiltersRef toLowerCase (h, r)) (applyFilters toLowerCase s)
       \<and> applyFilters toLowerCase (applyFilters toLowerCase s) = applyFilters toLowerCase s
       \<and> take (length h) (fst (buildPersonalScheduleRef (h, r) p)) = h
       \<and> fst (buildPersonalScheduleRef (h, r) p) ! timetableDataRef r = timetableData s
       \<and> timetableDataRef (snd (buildPersonalScheduleRef (h, r) p)) = timetableDataRef r
       \<and> represents (buildPersonalScheduleRef (h, r) p) (buildPersonalSchedule s p)
       \<and> represents (h, r) (checkConflicts s q)
       \<and> take (length hb) (fst (findConflictsRef (hb, a) selected)) = hb
       \<and> fst (findConflictsRef (hb, a) selected) ! a = hb ! a
       \<and> snd (findConflictsRef (hb, a) selected) = findConflicts (hb ! a) selected
       \<and> take (length hb) (fst (recommendRef (hb, a) c selected)) = hb
       \<and> fst (recommendRef (hb, a) c selected) ! a = hb ! a
       \<and> snd (recommendRef (hb, a) c selected) = recommend c (hb ! a) selected"
proof -
  from assms(1) have v: "timetableDataRef r < length h" and t: "h ! timetableDataRef r = timetableData s"
    by (simp_all add: represents_def)
  have l1: "take (length h) (fst (loadDataRef (h, r) response)) = h"
    by (rule frame_loadDataRef)
  have l2: "fst (loadDataRef (h, r) response) ! timetableDataRef r = timetableData s"
    using frame_nth [OF l1 v] t by simp
  have l3: "represents (loadDataRef (h, r) response) (loadTimetableData s response)"
    unfolding loadTimetableData_def using assms(1) by (rule represents_loadDataRef)
  have l4: "represents (loadDataRef (h, r) response) (loadTestTimetableData s response)"
    unfolding loadTestTimetableData_def using assms(1) by (rule represents_loadDataRef)
  have f1: "take (length h) (fst (applyFiltersRef toLowerCase (h, r))) = h"
    using assms(1) by (rule represents_applyFiltersRef)
  have f2: "fst (applyFiltersRef toLowerCase (h, r)) ! timetableDataRef r = timetableData s"
    using frame_nth [OF f1 v] t by simp
  have f3: "timetableDataRef (snd (applyFiltersRef toLowerCase (h, r))) = timetableDataRef r"
    by (simp add: applyFiltersRef_def Let_def)
  have f4: "length h \<le> filteredDataRef (snd (applyFiltersRef toLowerCase (h, r)))"
    using assms(1) by (rule represents_applyFiltersRef)
  have f5: "represents (applyFiltersRef toLowerCase (h, r)) (applyFilters toLowerCase s)"
    using assms(1) by (rule represents_applyFiltersRef)
  have f6: "applyFilters toLowerCase (applyFilters toLowerCase s) = applyFilters toLowerCase s"
    by (simp add: applyFilters_def Let_def)
  have b1: "take (length h) (fst (buildPersonalScheduleRef (h, r) p)) = h"
    by (rule frame_buildPersonalScheduleRef)
  have b2: "fst (buildPersonalScheduleRef (h, r) p) ! timetableDataRef r = timetableData s"
    using frame_nth [OF b1 v] t by simp
  have b3: "timetableDataRef (snd (buildPersonalScheduleRef (h, r) p)) = timetableDataRef r"
    using buildPersonalScheduleRef_cases [of h r p] by auto
  have b4: "represents (buildPersonalScheduleRef (h, r) p) (buildPersonalSchedule s p)"
    using assms(1) by (rule represents_buildPersonalScheduleRef)
  have c1: "represents (h, r) (checkConflicts s q)"
    using assms(1) by (rule represents_checkConflicts)
  have d1: "take (length hb) (fst (findConflictsRef (hb, a) selected)) = hb"
    by (simp add: findConflictsRef_eq [OF assms(2)])
  have d2: "fst (findConflictsRef (hb, a) selected) ! a = hb ! a"
    using frame_nth [OF d1 assms(2)] .
  have d3: "snd (findConflictsRef (hb, a) selected) = findConflicts (hb ! a) selected"
    by (simp add: findConflictsRef_eq [OF assms(2)])
  have r1: "take (length hb) (fst (recommendRef (hb, a) c selected)) = hb"
    by (simp add: recommendRef_eq [OF assms(2)])
  have r2: "fst (recommendRef (hb, a) c selected) ! a = hb ! a"
    using frame_nth [OF r1 assms(2)] .
  have r3: "snd (recommendRef (hb, a) c selected) = recommend c (hb ! a) selected"
    by (simp add: recommendRef_eq [OF assms(2)])
  show ?thesis
    using l1 l2 l3 l4 f1 f2 f3 f4 f5 f6 b1 b2 b3 b4 c1 d1 d2 d3 r1 r2 r3 by simp
qed

text \<open>
  The loaded timetable of two entries in a store of one array, and the example of the
  specification in a store of the backend: after a reload with one row, after the Monday
  filter and after a personal schedule, the array at address 0 still holds the two entries.
\<close>

theorem operations_leave_timetable_unchanged_witness:
  "represents loadedRefs mondayFilterState \<and> (0::nat) < length [exampleEntries]
   \<and> length (timetableData loadedState) = 2
   \<and> fst (loadDataRef loadedRefs (Returned emptyRowResponse)) ! 0 = timetableData loadedState
   \<and> timetableDataRef (snd (loadDataRef loadedRefs (Returned emptyRowResponse))) = 1
   \<and> length (fst (loadDataRef loadedRefs (Returned emptyRowResponse)) ! 1) = 1
   \<and> length (timetableData (loadTimetableData mondayFilterState (Returned emptyRowResponse))) = 1
   \<and> fst (applyFiltersRef toLowerCaseLatin1 loadedRefs) ! 0 = timetableData loadedState
   \<and> filteredDataRef (snd (applyFiltersRef toLowerCaseLatin1 loadedRefs)) = 2
   \<and> map course (fst (applyFiltersRef toLowerCaseLatin1 loadedRefs) ! 2) = [''CS101'']
   \<and> fst (buildPersonalScheduleRef loadedRefs (Returned scheduleResponse)) ! 0 = timetableData loadedState
   \<and> filteredDataRef (snd (buildPersonalScheduleRef loadedRefs (Returned scheduleResponse))) = 1
   \<and> map id' (filteredData (buildPersonalSchedule mondayFilterState (Returned scheduleResponse)))
        = [''fall.csv_0'']
   \<and> fst (findConflictsRef ([exampleEntries], 0) [''CS101'', ''MATH201'']) ! 0 = exampleEntries
   \<and> snd (findConflictsRef ([exampleEntries], 0) [''CS101'', ''MATH201'']) = [mkConflict cs101 math201]
   \<and> fst (recommendRef ([exampleEntries], 0) (mkConflict cs101 math201) [''CS101'', ''MATH201'']) ! 0
        = exampleEntries"
proof -
  have td: "timetableData loadedState = allEntries (data sampleResponse)"
    and fd: "filteredData loadedState = allEntries (data sampleResponse)"
    and fl: "filters loadedState = filters initialState"
    and ci: "currentTimetableId loadedState = Some ''tt-1''"
    by (simp_all add: loadedState_def loadTimetableData_def loadData_def sampleResponse_def Let_def)
  have rep: "represents loadedRefs mondayFilterState"
    by (simp add: represents_def loadedRefs_def mondayFilterState_def td fd ci)
  have rep': "represents (fst loadedRefs, snd loadedRefs) mondayFilterState"
    using rep by simp
  have z: "(0::nat) < length [exampleEntries]"
    by simp
  have len: "length (timetableData loadedState) = 2"
    by (simp add: td sampleResponse_def pushRows_def)
  have tdm: "timetableData mondayFilterState = timetableData loadedState"
    by (simp add: mondayFilterState_def)
  have ref0: "timetableDataRef (snd loadedRefs) = 0"
    by (simp add: loadedRefs_def)
  note w = operations_leave_timetable_unchanged
    [OF rep' z, of "Returned emptyRowResponse" toLowerCaseLatin1 "Returned scheduleResponse" _
      "[''CS101'', ''MATH201'']" "mkConflict cs101 math201"]
  have pair: "(fst loadedRefs, snd loadedRefs) = loadedRefs"
    by simp
  from w have l0: "fst (loadDataRef loadedRefs (Returned emptyRowResponse)) ! 0 = timetableData loadedState"
    unfolding pair ref0 tdm by blast
  from w have f0: "fst (applyFiltersRef toLowerCaseLatin1 loadedRefs) ! 0 = timetableData loadedState"
    unfolding pair ref0 tdm by blast
  from w have b0: "fst (buildPersonalScheduleRef loadedRefs (Returned scheduleResponse)) ! 0
      = timetableData loadedState"
    unfolding pair ref0 tdm by blast
  from w have c0: "fst (findConflictsRef ([exampleEntries], 0) [''CS101'', ''MATH201'']) ! 0
      = [exampleEntries] ! 0"
    and c1: "snd (findConflictsRef ([exampleEntries], 0) [''CS101'', ''MATH201''])
      = findConflicts ([exampleEntries] ! 0) [''CS101'', ''MATH201'']"
    and r0: "fst (recommendRef ([exampleEntries], 0) (mkConflict cs101 math201) [''CS101'', ''MATH201'']) ! 0
      = [exampleEntries] ! 0"
    by blast+
  have fc: "findConflicts exampleEntries [''CS101'', ''MATH201''] = [mkConflict cs101 math201]"
    by (simp add: findConflicts_def weekdays_def dayGroup_def selectedEntries_def exampleEntries_def
        cs101_def math201_def sweepKey_def intersects_def)
  have ok: "success emptyRowResponse"
    by (simp add: emptyRowResponse_def)
  have ld: "loadDataRef loadedRefs (Returned emptyRowResponse)
      = ([timetableData loadedState, allEntries (data emptyRowResponse),
          filter (\<lambda>item. type item = ''Theory'') (allEntries (data emptyRowResponse)),
          filter (\<lambda>item. type item = ''Lab'') (allEntries (data emptyRowResponse))],
         (snd loadedRefs)\<lparr>timetableDataRef := 1, filteredDataRef := 1\<rparr>)"
    using loadDataRef_success [OF ok, of "fst loadedRefs" "snd loadedRefs"]
    unfolding pair by (simp add: loadedRefs_def)
  have l1: "timetableDataRef (snd (loadDataRef loadedRefs (Returned emptyRowResponse))) = 1"
    by (simp add: ld)
  have one: "length (allEntries (data emptyRowResponse)) = 1"
    by (simp add: emptyRowResponse_def pushRows_def)
  have l2: "length (fst (loadDataRef loadedRefs (Returned emptyRowResponse)) ! 1) = 1"
    unfolding ld using one by simp
  have l3: "length (timetableData (loadTimetableData mondayFilterState (Returned emptyRowResponse))) = 1"
    by (simp add: loadTimetableData_def loadData_def Let_def emptyRowResponse_def pushRows_def)
  have days: "map day (allEntries (data sampleResponse)) = ['''', ''Monday'']"
    and courses: "map course (allEntries (data sampleResponse)) = ['''', ''CS101'']"
    by (simp_all add: sampleResponse_def pushRows_def toEntry_def enumerate_eq_zip aliasedRow_def
        emptyRow_def or_lit_def or_js_def truthy_def)
  have flm: "filters mondayFilterState = (filters initialState)\<lparr>filter_day := ''Monday''\<rparr>"
    by (simp add: mondayFilterState_def fl)
  have f1: "filteredDataRef (snd (applyFiltersRef toLowerCaseLatin1 loadedRefs)) = 2"
    by (simp add: applyFiltersRef_def loadedRefs_def Let_def flm initialState_def filterArray_def
        alloc_def)
  have view: "map course (filteredData (applyFilters toLowerCaseLatin1 mondayFilterState)) = [''CS101'']"
    using days courses
    by (simp add: applyFilters_def Let_def flm initialState_def tdm td
        sampleResponse_def pushRows_def enumerate_eq_zip)
  from w have "represents (applyFiltersRef toLowerCaseLatin1 loadedRefs)
      (applyFilters toLowerCaseLatin1 mondayFilterState)"
    unfolding pair by blast
  then have "fst (applyFiltersRef toLowerCaseLatin1 loadedRefs)
        ! filteredDataRef (snd (applyFiltersRef toLowerCaseLatin1 loadedRefs))
      = filteredData (applyFilters toLowerCaseLatin1 mondayFilterState)"
    by (simp add: represents_def split: prod.splits)
  then have f2: "map course (fst (applyFiltersRef toLowerCaseLatin1 loadedRefs) ! 2) = [''CS101'']"
    by (simp add: f1 view)
  have guard: "\<not> (noTimetableId (currentTimetableIdCell (snd loadedRefs))
      \<or> length (selectedCoursesCell (snd loadedRefs)) = 0)"
    by (simp add: loadedRefs_def noTimetableId_def)
  have fs: "filter_success scheduleResponse"
    by (simp add: scheduleResponse_def)
  have b1: "filteredDataRef (snd (buildPersonalScheduleRef loadedRefs (Returned scheduleResponse))) = 1"
    using buildPersonalScheduleRef_success [OF guard fs, of "fst loadedRefs"]
    unfolding pair by (simp add: loadedRefs_def)
  have b2: "map id' (filteredData (buildPersonalSchedule mondayFilterState (Returned scheduleResponse)))
        = [''fall.csv_0'']"
    by (simp add: buildPersonalSchedule_def mondayFilterState_def ci noTimetableId_def
        scheduleResponse_def scheduleEntries_def toScheduleEntry_def enumerate_eq_zip
        show_nat.simps digit_char_def)
  from rep z len l0 l1 l2 l3 f0 f1 f2 b0 b1 b2 c0 c1 r0 fc show ?thesis
    by simp
qed

end
